theory Spec2Isabelle
  imports Complex_Main "HOL-Library.Multiset"
begin

section \<open>JavaScript values\<close>

text \<open>
  A JavaScript string is a sequence of UTF-16 code units, each a number below \<open>2^16\<close>. String
  literals of the source are ASCII (apart from the marks of a cut snippet), so they are
  written as Isabelle string literals and widened by \<open>utf16\<close>.
\<close>

type_synonym cu = nat
type_synonym jsstring = "cu list"

definition utf16 :: "string \<Rightarrow> jsstring" where
  "utf16 s = map of_char s"

text \<open>
  A JavaScript number is a double. The model keeps the real number a finite double denotes
  and the value NaN; rounding of binary fractions and the infinities (which JSON cannot
  carry except by overflow) are not modelled.
\<close>

datatype jsnum = NaN | Num real

text \<open>\<open>Math.min\<close> and \<open>Math.max\<close>: NaN if either argument is NaN.\<close>

fun Math_min :: "jsnum \<Rightarrow> jsnum \<Rightarrow> jsnum" where
  "Math_min (Num a) (Num b) = Num (min a b)"
| "Math_min _ _ = NaN"

fun Math_max :: "jsnum \<Rightarrow> jsnum \<Rightarrow> jsnum" where
  "Math_max (Num a) (Num b) = Num (max a b)"
| "Math_max _ _ = NaN"

text \<open>The value \<open>JSON.parse\<close> gives for a request body.\<close>

datatype json =
    JNull
  | JBool bool
  | JNumber real
  | JString jsstring
  | JArray "json list"
  | JObject "(jsstring \<times> json) list"

text \<open>
  Property access \<open>body?.name\<close>: \<open>None\<close> is \<open>undefined\<close>. Only an object has the
  properties the handler reads; for \<open>null\<close> the optional chain gives \<open>undefined\<close>, and a
  number, string, boolean or array has none of them. \<open>JSON.parse\<close> keeps the last binding
  of a repeated key.
\<close>

fun get_field :: "json \<Rightarrow> string \<Rightarrow> json option" where
  "get_field (JObject kvs) name = map_of (rev kvs) (utf16 name)"
| "get_field _ name = None"

text \<open>The operator \<open>??\<close>: the right operand replaces \<open>undefined\<close> and \<open>null\<close> only.\<close>

fun nullish :: "json option \<Rightarrow> json \<Rightarrow> json" where
  "nullish None d = d"
| "nullish (Some JNull) d = d"
| "nullish (Some v) d = v"

text \<open>
  An evaluation either throws (\<open>Throws\<close>, with the text \<open>String(e)\<close> of the exception) or
  returns a value.
\<close>

datatype 'a outcome = Throws jsstring | Returns 'a

text \<open>
  The conversion of a parsed value to a primitive. An object is converted by its methods
  \<open>valueOf\<close> and \<open>toString\<close>. The properties of a parsed object are data, never functions: an
  own property \<open>toString\<close> hides \<open>Object.prototype.toString\<close>, the inherited \<open>valueOf\<close>
  returns the object itself, and the conversion ends with a TypeError. Without an own
  \<open>toString\<close> the object converts to the text \<open>[object Object]\<close>. An array is converted by
  \<open>join\<close>, which converts every element that is not \<open>null\<close>. Exhaustion of the stack by a
  deeply nested array is not modelled.
\<close>

fun to_primitive_throws :: "json \<Rightarrow> bool" where
  "to_primitive_throws (JObject kvs) = (utf16 ''toString'' \<in> fst ` set kvs)"
| "to_primitive_throws (JArray vs) = list_ex to_primitive_throws vs"
| "to_primitive_throws v = False"

definition TypeError_primitive :: jsstring where
  "TypeError_primitive = utf16 ''TypeError: Cannot convert object to primitive value''"

text \<open>
  \<open>Number(v)\<close>. For a string, and for an array (which is first turned into a string), the
  result is what the platform's string-to-number conversion gives; it is the parameter
  \<open>str_num\<close>. An object that converts to a primitive converts to NaN.
\<close>

fun Number :: "(json \<Rightarrow> jsnum) \<Rightarrow> json \<Rightarrow> jsnum outcome" where
  "Number str_num JNull = Returns (Num 0)"
| "Number str_num (JBool b) = Returns (Num (if b then 1 else 0))"
| "Number str_num (JNumber x) = Returns (Num x)"
| "Number str_num (JString s) = Returns (str_num (JString s))"
| "Number str_num (JArray vs) =
     (if to_primitive_throws (JArray vs) then Throws TypeError_primitive
      else Returns (str_num (JArray vs)))"
| "Number str_num (JObject kvs) =
     (if to_primitive_throws (JObject kvs) then Throws TypeError_primitive else Returns NaN)"

text \<open>Truthiness of a value (\<open>undefined\<close> is \<open>None\<close>).\<close>

fun truthy :: "json option \<Rightarrow> bool" where
  "truthy None = False"
| "truthy (Some JNull) = False"
| "truthy (Some (JBool b)) = b"
| "truthy (Some (JNumber x)) = (x \<noteq> 0)"
| "truthy (Some (JString s)) = (s \<noteq> [])"
| "truthy (Some _) = True"

subsection \<open>Rendering numbers\<close>

definition digit :: "nat \<Rightarrow> cu" where
  "digit d = 48 + d mod 10"

text \<open>The decimal digits of a natural number, as template literals render an index.\<close>

fun show_nat :: "nat \<Rightarrow> jsstring" where
  "show_nat n = (if n < 10 then [digit n] else show_nat (n div 10) @ [digit n])"

declare show_nat.simps [simp del]

text \<open>
  \<open>x.toFixed(3)\<close>: the sign, then for \<open>|x| < 10^21\<close> the integer \<open>n\<close> with \<open>n / 1000\<close>
  nearest to \<open>|x|\<close> (the larger one on a tie), printed with three decimals. From \<open>10^21\<close> on
  the digits are those of the platform's number-to-string conversion (exponent notation);
  it is the parameter \<open>num_str\<close>.
\<close>

definition toFixed3 :: "(real \<Rightarrow> jsstring) \<Rightarrow> real \<Rightarrow> jsstring" where
  "toFixed3 num_str x =
     (let n = nat \<lfloor>\<bar>x\<bar> * 1000 + 1 / 2\<rfloor> in
      (if x < 0 then utf16 ''-'' else [])
        @ (if 10 ^ 21 \<le> \<bar>x\<bar> then num_str \<bar>x\<bar>
           else show_nat (n div 1000) @ utf16 ''.''
                  @ [digit (n div 100), digit (n div 10), digit n]))"

text \<open>\<open>xs.join(sep)\<close>.\<close>

fun join :: "jsstring \<Rightarrow> jsstring list \<Rightarrow> jsstring" where
  "join sep [] = []"
| "join sep [x] = x"
| "join sep (x # y # ys) = x @ sep @ join sep (y # ys)"

subsection \<open>Case-insensitive literal patterns\<close>

text \<open>
  The patterns of the handoff classifier are literal ASCII texts with the flag \<open>i\<close>. A code
  unit matches a pattern character when both have the same canonical form; for a
  non-Unicode pattern the canonical form of an ASCII letter is its upper case, and no
  character outside ASCII is canonicalised to an ASCII one.
\<close>

definition canonicalize :: "cu \<Rightarrow> cu" where
  "canonicalize c = (if 0x61 \<le> c \<and> c \<le> 0x7A then c - 0x20 else c)"

fun prefix_of :: "jsstring \<Rightarrow> jsstring \<Rightarrow> bool" where
  "prefix_of [] s = True"
| "prefix_of (p # ps) [] = False"
| "prefix_of (p # ps) (c # cs) = (p = c \<and> prefix_of ps cs)"

fun occurs_in :: "jsstring \<Rightarrow> jsstring \<Rightarrow> bool" where
  "occurs_in pat [] = prefix_of pat []"
| "occurs_in pat (c # cs) = (prefix_of pat (c # cs) \<or> occurs_in pat cs)"

text \<open>\<open>/pat/i.test(s)\<close>: the pattern occurs somewhere in \<open>s\<close>, up to canonical forms.\<close>

definition test_i :: "jsstring \<Rightarrow> jsstring \<Rightarrow> bool" where
  "test_i pat s = occurs_in (map canonicalize pat) (map canonicalize s)"

section \<open>Regular expressions of the normalizers\<close>

text \<open>
  The patterns of both normalizers are sequences of literal characters, optional characters,
  \<open>\s\<close>, \<open>\s*\<close> and the escape \<open>\b\<close>. The matcher below is a backtracking matcher for such
  sequences: it tries the greedy alternative first. The character classes depend on the
  engine: JavaScript's \<open>\s\<close> is WhiteSpace and LineTerminator, \<open>\w\<close> is \<open>[A-Za-z0-9_]\<close>;
  for PostgreSQL the classes are modelled on ASCII, where they do not depend on the locale.
\<close>

datatype engine = JS | PG

fun is_space :: "engine \<Rightarrow> cu \<Rightarrow> bool" where
  "is_space JS c =
     (c \<in> {0x09, 0x0A, 0x0B, 0x0C, 0x0D, 0x20, 0xA0, 0x1680, 0x2028, 0x2029, 0x202F, 0x205F,
            0x3000, 0xFEFF} \<or> (0x2000 \<le> c \<and> c \<le> 0x200A))"
| "is_space PG c = (c \<in> {0x09, 0x0A, 0x0B, 0x0C, 0x0D, 0x20})"

definition is_word :: "cu \<Rightarrow> bool" where
  "is_word c = ((0x30 \<le> c \<and> c \<le> 0x39) \<or> (0x41 \<le> c \<and> c \<le> 0x5A) \<or> c = 0x5F
                 \<or> (0x61 \<le> c \<and> c \<le> 0x7A))"

datatype atom = Lit cu | Opt cu | Space | Space_star | Boundary

text \<open>
  \<open>at_boundary prev s\<close>: the position between the previous character \<open>prev\<close> (\<open>None\<close> at the
  start of the text) and the rest \<open>s\<close> is a word boundary.
\<close>

definition at_boundary :: "cu option \<Rightarrow> jsstring \<Rightarrow> bool" where
  "at_boundary prev s =
     ((case prev of None \<Rightarrow> False | Some p \<Rightarrow> is_word p)
        \<noteq> (case s of [] \<Rightarrow> False | c # cs \<Rightarrow> is_word c))"

text \<open>
  \<open>matches e pat prev s\<close> matches \<open>pat\<close> at the start of \<open>s\<close>; the result is the last
  character consumed (or \<open>prev\<close>) and the text after the match.
\<close>

fun matches :: "engine \<Rightarrow> atom list \<Rightarrow> cu option \<Rightarrow> jsstring \<Rightarrow> (cu option \<times> jsstring) option" where
  "matches e [] prev s = Some (prev, s)"
| "matches e (Lit c # as) prev [] = None"
| "matches e (Lit c # as) prev (x # xs) = (if x = c then matches e as (Some x) xs else None)"
| "matches e (Opt c # as) prev [] = matches e as prev []"
| "matches e (Opt c # as) prev (x # xs) =
     (if x = c then
        (case matches e as (Some x) xs of
           Some r \<Rightarrow> Some r
         | None \<Rightarrow> matches e as prev (x # xs))
      else matches e as prev (x # xs))"
| "matches e (Space # as) prev [] = None"
| "matches e (Space # as) prev (x # xs) =
     (if is_space e x then matches e as (Some x) xs else None)"
| "matches e (Space_star # as) prev [] = matches e as prev []"
| "matches e (Space_star # as) prev (x # xs) =
     (if is_space e x then
        (case matches e (Space_star # as) (Some x) xs of
           Some r \<Rightarrow> Some r
         | None \<Rightarrow> matches e as prev (x # xs))
      else matches e as prev (x # xs))"
| "matches e (Boundary # as) prev s = (if at_boundary prev s then matches e as prev s else None)"

text \<open>
  \<open>s.replace(/pat/g, rep)\<close> and \<open>regexp_replace(s, pat, rep, 'g')\<close>: scan from the left; at a
  match emit \<open>rep\<close> and go on after the match; after an empty match, and where nothing
  matches, copy one character.
\<close>

function replace_all :: "engine \<Rightarrow> atom list \<Rightarrow> jsstring \<Rightarrow> cu option \<Rightarrow> jsstring \<Rightarrow> jsstring" where
  "replace_all e pat rep prev s =
     (case matches e pat prev s of
        Some (prev', r) \<Rightarrow>
          if length r < length s then rep @ replace_all e pat rep prev' r
          else rep @ (case s of [] \<Rightarrow> [] | c # cs \<Rightarrow> c # replace_all e pat rep (Some c) cs)
      | None \<Rightarrow> (case s of [] \<Rightarrow> [] | c # cs \<Rightarrow> c # replace_all e pat rep (Some c) cs))"
  by pat_completeness auto
termination
  by (relation "measure (\<lambda>(e, pat, rep, prev, s). length s)") auto

declare replace_all.simps [simp del]

definition lits :: "string \<Rightarrow> atom list" where
  "lits s = map (\<lambda>c. Lit (of_char c)) s"

section \<open>Query normalization in the edge function\<close>

text \<open>
  \<open>toLowerCase\<close> and \<open>normalize("NFKD")\<close> are given by the Unicode Character Database. The
  model carries the part of it for the code units below U+0100 and for U+2122, U+03BC and
  U+2044 (\<open>modelled\<close>). Outside this part the model is not the platform's function: it
  passes a code unit through unchanged, while the platform lowercases and decomposes many of
  them; the statements below evaluate the normalizer on modelled text only. No decomposition
  in the table starts with a combining mark, so on modelled text the decomposition of a text
  is the concatenation of the decompositions of its characters.
\<close>

definition modelled :: "cu \<Rightarrow> bool" where
  "modelled c = (c < 0x100 \<or> c = 0x03BC \<or> c = 0x2044 \<or> c = 0x2122)"

definition toLowerCase_cu :: "cu \<Rightarrow> cu" where
  "toLowerCase_cu c =
     (if (0x41 \<le> c \<and> c \<le> 0x5A) \<or> (0xC0 \<le> c \<and> c \<le> 0xDE \<and> c \<noteq> 0xD7) then c + 0x20 else c)"

definition toLowerCase :: "jsstring \<Rightarrow> jsstring" where
  "toLowerCase s = map toLowerCase_cu s"

definition nfkd_table :: "(cu \<times> jsstring) list" where
  "nfkd_table =
   [(0xA0, [0x20]), (0xA8, [0x20, 0x308]), (0xAA, [0x61]), (0xAF, [0x20, 0x304]),
     (0xB2, [0x32]), (0xB3, [0x33]), (0xB4, [0x20, 0x301]), (0xB5, [0x3BC]),
     (0xB8, [0x20, 0x327]), (0xB9, [0x31]), (0xBA, [0x6F]), (0xBC, [0x31, 0x2044, 0x34]),
     (0xBD, [0x31, 0x2044, 0x32]), (0xBE, [0x33, 0x2044, 0x34]), (0xC0, [0x41, 0x300]),
     (0xC1, [0x41, 0x301]), (0xC2, [0x41, 0x302]), (0xC3, [0x41, 0x303]),
     (0xC4, [0x41, 0x308]), (0xC5, [0x41, 0x30A]), (0xC7, [0x43, 0x327]),
     (0xC8, [0x45, 0x300]), (0xC9, [0x45, 0x301]), (0xCA, [0x45, 0x302]),
     (0xCB, [0x45, 0x308]), (0xCC, [0x49, 0x300]), (0xCD, [0x49, 0x301]),
     (0xCE, [0x49, 0x302]), (0xCF, [0x49, 0x308]), (0xD1, [0x4E, 0x303]),
     (0xD2, [0x4F, 0x300]), (0xD3, [0x4F, 0x301]), (0xD4, [0x4F, 0x302]),
     (0xD5, [0x4F, 0x303]), (0xD6, [0x4F, 0x308]), (0xD9, [0x55, 0x300]),
     (0xDA, [0x55, 0x301]), (0xDB, [0x55, 0x302]), (0xDC, [0x55, 0x308]),
     (0xDD, [0x59, 0x301]), (0xE0, [0x61, 0x300]), (0xE1, [0x61, 0x301]),
     (0xE2, [0x61, 0x302]), (0xE3, [0x61, 0x303]), (0xE4, [0x61, 0x308]),
     (0xE5, [0x61, 0x30A]), (0xE7, [0x63, 0x327]), (0xE8, [0x65, 0x300]),
     (0xE9, [0x65, 0x301]), (0xEA, [0x65, 0x302]), (0xEB, [0x65, 0x308]),
     (0xEC, [0x69, 0x300]), (0xED, [0x69, 0x301]), (0xEE, [0x69, 0x302]),
     (0xEF, [0x69, 0x308]), (0xF1, [0x6E, 0x303]), (0xF2, [0x6F, 0x300]),
     (0xF3, [0x6F, 0x301]), (0xF4, [0x6F, 0x302]), (0xF5, [0x6F, 0x303]),
     (0xF6, [0x6F, 0x308]), (0xF9, [0x75, 0x300]), (0xFA, [0x75, 0x301]),
     (0xFB, [0x75, 0x302]), (0xFC, [0x75, 0x308]), (0xFD, [0x79, 0x301]),
     (0xFF, [0x79, 0x308]), (0x2122, [0x54, 0x4D])]"

definition nfkd_cu :: "cu \<Rightarrow> jsstring" where
  "nfkd_cu c =
     (if c < 0xA0 then [c] else case map_of nfkd_table c of Some d \<Rightarrow> d | None \<Rightarrow> [c])"

definition normalize_NFKD :: "jsstring \<Rightarrow> jsstring" where
  "normalize_NFKD s = concat (map nfkd_cu s)"

text \<open>\<open>.replace(/[\u0300-\u036f]/g, "")\<close>: the combining diacritical marks are removed.\<close>

definition strip_accents :: "jsstring \<Rightarrow> jsstring" where
  "strip_accents s = filter (\<lambda>c. \<not> (0x0300 \<le> c \<and> c \<le> 0x036F)) s"

text \<open>\<open>.trim()\<close> removes leading and trailing WhiteSpace and LineTerminator characters.\<close>

definition trim :: "jsstring \<Rightarrow> jsstring" where
  "trim s = rev (dropWhile (is_space JS) (rev (dropWhile (is_space JS) s)))"

text \<open>The three rewrites and the whitespace pattern, in the order of the source.\<close>

definition control4_js :: "atom list" where
  "control4_js = lits ''control'' @ [Space_star, Lit 0x34, Boundary]"

definition foursight_js :: "atom list" where
  "foursight_js = [Boundary, Lit 0x34, Space_star] @ lits ''sight'' @ [Boundary]"

definition os3_js :: "atom list" where
  "os3_js = [Boundary] @ lits ''os'' @ [Space_star, Opt 0x76, Lit 0x33, Boundary]"

definition spaces :: "atom list" where
  "spaces = [Space, Space_star]"

definition rewrite_js :: "jsstring \<Rightarrow> jsstring" where
  "rewrite_js s =
     (let s1 = replace_all JS control4_js (utf16 ''control4'') None s;
          s2 = replace_all JS foursight_js (utf16 ''4sight'') None s1;
          s3 = replace_all JS os3_js (utf16 ''os3'') None s2;
          s4 = replace_all JS spaces (utf16 '' '') None s3
      in trim s4)"

definition normalizeLocal :: "jsstring \<Rightarrow> jsstring" where
  "normalizeLocal s = rewrite_js (strip_accents (normalize_NFKD (toLowerCase s)))"

section \<open>Text normalization in the database\<close>

text \<open>
  \<open>normalize_text\<close> of \<open>001_hybrid_search.sql\<close>. PostgreSQL's regular expressions read the
  escape \<open>\b\<close> as the backspace character (their word-boundary escape is \<open>\y\<close>); the comments of
  the source and the TypeScript mirror read it as a word boundary. The model takes the reading
  as a parameter, and every statement about \<open>normalize_text\<close> below is made for both.
  \<open>lower\<close> and \<open>unaccent\<close> are modelled on ASCII, where they do not depend on the locale of
  the database or on the rules file; other code units are passed through. The source writes
  the last pattern as \<open>'\bcan\'t\b'\<close>. With standard-conforming strings a backslash does
  not escape a quote: the literal ends at the quote before the \<open>t\<close> and the statement is
  not well-formed, so PostgreSQL rejects the function as written. The model is the function of
  the source with this one pattern read as \<open>\bcan't\b\<close>, as the escape was meant.
\<close>

datatype escape_b = Word_boundary | Backspace

fun esc_b :: "escape_b \<Rightarrow> atom" where
  "esc_b Word_boundary = Boundary"
| "esc_b Backspace = Lit 0x08"

definition pg_lower :: "jsstring \<Rightarrow> jsstring" where
  "pg_lower s = map (\<lambda>c. if 0x41 \<le> c \<and> c \<le> 0x5A then c + 0x20 else c) s"

text \<open>\<open>trim(input)\<close> removes spaces (U+0020) only.\<close>

definition pg_trim :: "jsstring \<Rightarrow> jsstring" where
  "pg_trim s = rev (dropWhile (\<lambda>c. c = 0x20) (rev (dropWhile (\<lambda>c. c = 0x20) s)))"

definition unaccent :: "jsstring \<Rightarrow> jsstring" where
  "unaccent s = s"

definition regexp_replace_g :: "atom list \<Rightarrow> string \<Rightarrow> jsstring \<Rightarrow> jsstring" where
  "regexp_replace_g pat rep s = replace_all PG pat (utf16 rep) None s"

definition normalize_text :: "escape_b \<Rightarrow> jsstring option \<Rightarrow> jsstring" where
  "normalize_text rd input =
     (case input of
        None \<Rightarrow> []
      | Some i0 \<Rightarrow>
          (let b = esc_b rd;
               i1 = pg_lower i0;
               i2 = pg_trim i1;
               i3 = unaccent i2;
               i4 = regexp_replace_g ([b] @ lits ''control'' @ [Space_star, Lit 0x34, b]) ''control4'' i3;
               i5 = regexp_replace_g ([b] @ lits ''c4'' @ [b]) ''control4'' i4;
               i6 = regexp_replace_g ([b, Lit 0x34, Space_star] @ lits ''sight'' @ [b]) ''4sight'' i5;
               i7 = regexp_replace_g ([b] @ lits ''os'' @ [Space_star, Lit 0x33, b]) ''os3'' i6;
               i8 = regexp_replace_g ([b] @ lits ''os'' @ [Space_star, Opt 0x76, Lit 0x33, b]) ''os3'' i7;
               i9 = regexp_replace_g ([b] @ lits ''log'' @ [Space_star] @ lits ''in'' @ [b]) ''login'' i8;
               i10 = regexp_replace_g ([b] @ lits ''can't'' @ [b]) ''cannot'' i9
           in regexp_replace_g spaces '' '' i10))"

section \<open>The ask-bot edge function\<close>

subsection \<open>Collaborators\<close>

text \<open>
  A call of an external service either rejects (\<open>Throws\<close>, with the text of the exception) or
  resolves. The handler is a function of the outcomes of its calls; it returns the response
  together with the calls it made, in order. Response headers (CORS) are not modelled.
\<close>

record KBRow =
  row_id :: "jsstring option"
  row_content :: jsstring
  row_score :: "real option"
  source_url :: "jsstring option"
  source_title :: "jsstring option"
  updated_at :: "jsstring option"

record Citation =
  cit_index :: nat
  cit_title :: jsstring
  cit_url :: jsstring
  cit_snippet :: jsstring
  cit_score :: real
  cit_updated_at :: "jsstring option"

datatype role = System | User | Assistant

record chat_message =
  msg_role :: role
  msg_content :: jsstring

text \<open>The parsed body of the embeddings endpoint, as far as the handler reads it.\<close>

record embed_result =
  emb_embedding :: "real list option"
  emb_error :: "json option"
  emb_status :: nat

record rpc_args =
  q_text :: jsstring
  q_embedding :: "real list"
  w_semantic :: real
  w_lexical :: real
  w_trigram :: real
  rpc_k :: jsnum

text \<open>\<open>{ data: rows, error }\<close>; \<open>rpc_data\<close> is \<open>None\<close> when \<open>rows\<close> is not an array.\<close>

record rpc_result =
  rpc_data :: "KBRow list option"
  rpc_error :: "jsstring option"

record history_result =
  hist_data :: "chat_message list option"
  hist_error :: bool

datatype call =
    Embeddings_call jsstring
  | Search_call rpc_args
  | History_call json jsnum
  | Completions_call real "chat_message list"
  | Insert_call json role jsstring

record services =
  env_SUPABASE_URL :: "jsstring option"
  env_SERVICE_ROLE_KEY :: "jsstring option"
  env_SUPABASE_SERVICE_ROLE_KEY :: "jsstring option"
  env_OPENAI_API_KEY :: "jsstring option"
  string_to_number :: "json \<Rightarrow> jsnum"
  number_to_string :: "real \<Rightarrow> jsstring"
  randomUUID :: jsstring
  embeddings :: "jsstring \<Rightarrow> embed_result outcome"
  search_rpc :: "rpc_args \<Rightarrow> rpc_result outcome"
  select_chat_messages :: "json \<Rightarrow> jsnum \<Rightarrow> history_result outcome"
  chat_completions :: "real \<Rightarrow> chat_message list \<Rightarrow> jsstring option outcome"
  insert_chat_message :: "json \<Rightarrow> role \<Rightarrow> jsstring \<Rightarrow> unit outcome"

record request =
  req_method :: string
  req_json :: "json option"

record answer_result =
  answer :: jsstring
  citations :: "Citation list"
  sources :: "KBRow list"
  needs_human_help :: bool
  session_id :: json

datatype response_body =
    No_body
  | Health_ok
  | Error_body jsstring
  | Error_details jsstring jsstring
  | Embedding_error "json option" nat
  | Answer_body answer_result

record response =
  status :: nat
  body :: response_body

subsection \<open>Request parameters\<close>

text \<open>\<open>Math.max(1, Math.min(Number(body?.top_k ?? 10), 25))\<close>\<close>

definition topK_of :: "(json \<Rightarrow> jsnum) \<Rightarrow> json \<Rightarrow> jsnum outcome" where
  "topK_of str_num b =
     (case Number str_num (nullish (get_field b ''top_k'') (JNumber 10)) of
        Throws e \<Rightarrow> Throws e
      | Returns n \<Rightarrow> Returns (Math_max (Num 1) (Math_min n (Num 25))))"

text \<open>\<open>Number.isFinite(body?.w) ? body.w : d\<close>\<close>

definition weight_of :: "json \<Rightarrow> string \<Rightarrow> real \<Rightarrow> real" where
  "weight_of b name d = (case get_field b name of Some (JNumber x) \<Rightarrow> x | _ \<Rightarrow> d)"

text \<open>\<open>body?.session_id || crypto.randomUUID()\<close>\<close>

definition sessionId_of :: "jsstring \<Rightarrow> json \<Rightarrow> json" where
  "sessionId_of uuid b =
     (case get_field b ''session_id'' of
        Some v \<Rightarrow> if truthy (Some v) then v else JString uuid
      | None \<Rightarrow> JString uuid)"

text \<open>\<open>Number(body?.max_history ?? 4)\<close>\<close>

definition maxHistory_of :: "(json \<Rightarrow> jsnum) \<Rightarrow> json \<Rightarrow> jsnum outcome" where
  "maxHistory_of str_num b = Number str_num (nullish (get_field b ''max_history'') (JNumber 4))"

subsection \<open>Context block and citations\<close>

text \<open>
  \<open>hits.slice(0, Math.min(hits.length, topK))\<close>: the end index is converted to an integer,
  NaN to 0; it is never negative here.
\<close>

fun slice_end :: "jsnum \<Rightarrow> nat" where
  "slice_end NaN = 0"
| "slice_end (Num x) = nat \<lfloor>x\<rfloor>"

definition topForLLM :: "KBRow list \<Rightarrow> jsnum \<Rightarrow> KBRow list" where
  "topForLLM hits topK = take (slice_end (Math_min (Num (real (length hits))) topK)) hits"

definition score_of :: "KBRow \<Rightarrow> real" where
  "score_of r = (case row_score r of None \<Rightarrow> 0 | Some x \<Rightarrow> x)"

text \<open>The marker of the block at (0-based) position \<open>i\<close>, up to the index.\<close>

definition marker :: "nat \<Rightarrow> jsstring" where
  "marker i = utf16 ''[#'' @ show_nat (i + 1)"

definition context_block :: "(real \<Rightarrow> jsstring) \<Rightarrow> nat \<Rightarrow> KBRow \<Rightarrow> jsstring" where
  "context_block num_str i r =
     marker i @ utf16 '' | score='' @ toFixed3 num_str (score_of r) @ utf16 '']'' @ [0x0A]
       @ row_content r"

definition context_blocks :: "(real \<Rightarrow> jsstring) \<Rightarrow> KBRow list \<Rightarrow> jsstring list" where
  "context_blocks num_str rows = map (\<lambda>(i, r). context_block num_str i r) (enumerate 0 rows)"

definition context_of :: "(real \<Rightarrow> jsstring) \<Rightarrow> KBRow list \<Rightarrow> jsstring" where
  "context_of num_str rows = join [0x0A, 0x0A] (context_blocks num_str rows)"

text \<open>
  The markers of a rendered context, as a reader of the text finds them: the text is cut
  before every occurrence of \<open>[#\<close>. The first piece is the text before the first marker; every
  further piece starts with a marker, and its label is the run of digits after \<open>[#\<close>.
\<close>

fun pieces :: "jsstring \<Rightarrow> jsstring list" where
  "pieces [] = [[]]"
| "pieces (c # cs) =
     (if prefix_of (utf16 ''[#'') (c # cs) then [] # (c # hd (pieces cs)) # tl (pieces cs)
      else (c # hd (pieces cs)) # tl (pieces cs))"

definition markers_in :: "jsstring \<Rightarrow> jsstring list" where
  "markers_in ctx = tl (pieces ctx)"

definition is_digit :: "cu \<Rightarrow> bool" where
  "is_digit c = (0x30 \<le> c \<and> c \<le> 0x39)"

definition marker_label :: "jsstring \<Rightarrow> jsstring" where
  "marker_label p = takeWhile is_digit (drop 2 p)"

definition safeUrl :: "KBRow \<Rightarrow> jsstring" where
  "safeUrl r = (case source_url r of None \<Rightarrow> utf16 ''#'' | Some u \<Rightarrow> u)"

text \<open>
  The mark appended to a cut snippet: the ellipsis U+2026 in \<open>ask-bot/index.ts\<close>; in the
  conversational handler the literal is the three characters U+00E2 U+20AC U+00A6.
\<close>

definition ellipsis :: jsstring where
  "ellipsis = [0x2026]"

definition ellipsis_conv :: jsstring where
  "ellipsis_conv = [0xE2, 0x20AC, 0xA6]"

definition citation_of :: "jsstring \<Rightarrow> nat \<Rightarrow> KBRow \<Rightarrow> Citation" where
  "citation_of mark i r =
     \<lparr>cit_index = i + 1,
      cit_title = (case source_title r of
                     None \<Rightarrow> utf16 ''Knowledge Base Article''
                   | Some t \<Rightarrow> if t = [] then utf16 ''Knowledge Base Article'' else t),
      cit_url = safeUrl r,
      cit_snippet = take 240 (row_content r) @ (if length (row_content r) > 240 then mark else []),
      cit_score = score_of r,
      cit_updated_at = updated_at r\<rparr>"

definition citations_of :: "jsstring \<Rightarrow> KBRow list \<Rightarrow> Citation list" where
  "citations_of mark rows = map (\<lambda>(i, r). citation_of mark i r) (enumerate 0 rows)"

subsection \<open>Handoff decision\<close>

definition noAnswerPatterns :: "jsstring list" where
  "noAnswerPatterns =
     [utf16 ''I don't know'', utf16 ''I couldn't find that'', utf16 ''I'm not sure'',
      utf16 ''I don't have information'', utf16 ''not in our knowledge base'',
      utf16 ''I don't have enough information'', utf16 ''I can't answer'',
      utf16 ''I can't provide'', utf16 ''I'm unable to'']"

definition socialPatterns :: "jsstring list" where
  "socialPatterns =
     [utf16 ''how are you'', utf16 ''hello'', utf16 ''hi there'', utf16 ''good morning'',
      utf16 ''good afternoon'', utf16 ''good evening'', utf16 ''hey'', utf16 ''thanks'',
      utf16 ''thank you'', utf16 ''your name'', utf16 ''who are you'', utf16 ''what are you'',
      utf16 ''how is your day'']"

definition non_answer :: "jsstring \<Rightarrow> bool" where
  "non_answer a = list_ex (\<lambda>pat. test_i pat a) noAnswerPatterns"

definition isSocialQuestion :: "jsstring \<Rightarrow> bool" where
  "isSocialQuestion q = list_ex (\<lambda>pat. test_i pat q) socialPatterns"

text \<open>\<open>ask-bot/index.ts\<close>: no social classification.\<close>

definition needsHumanHelp :: "jsstring \<Rightarrow> KBRow list \<Rightarrow> bool" where
  "needsHumanHelp a hits = (non_answer a \<or> length hits = 0)"

text \<open>The conversational handler.\<close>

definition needsHumanHelp_conv :: "jsstring \<Rightarrow> jsstring \<Rightarrow> KBRow list \<Rightarrow> bool" where
  "needsHumanHelp_conv q a hits = (\<not> isSocialQuestion q \<and> (non_answer a \<or> length hits = 0))"

subsection \<open>Session store writes\<close>

text \<open>
  The two inserts are in one \<open>try\<close>: when the first throws, the second is not made; the
  exception is logged and the request goes on.
\<close>

definition store_turn :: "services \<Rightarrow> json \<Rightarrow> jsstring \<Rightarrow> jsstring \<Rightarrow> call list" where
  "store_turn S sid q a =
     (if truthy (Some sid) then
        (case insert_chat_message S sid User q of
           Throws e \<Rightarrow> [Insert_call sid User q]
         | Returns u \<Rightarrow> [Insert_call sid User q, Insert_call sid Assistant a])
      else [])"

definition respond :: "nat \<Rightarrow> response_body \<Rightarrow> response" where
  "respond st b = \<lparr>status = st, body = b\<rparr>"

text \<open>The outer \<open>catch\<close>.\<close>

definition unhandled :: "jsstring \<Rightarrow> response" where
  "unhandled e = respond 500 (Error_details (utf16 ''Unhandled error'') e)"

subsection \<open>The handler of \<open>ask-bot/index.ts\<close>\<close>

definition system_prompt :: jsstring where
  "system_prompt = utf16 ''You are a concise support assistant. Answer using only CONTEXT. If unsure, say you don't know. Always cite like [#n].''"

definition user_prompt :: "jsstring \<Rightarrow> jsstring \<Rightarrow> jsstring" where
  "user_prompt q ctx =
     utf16 ''USER QUESTION:'' @ [0x0A] @ q @ [0x0A, 0x0A] @ utf16 ''CONTEXT:'' @ [0x0A] @ ctx"

definition fallback_answer :: "KBRow list \<Rightarrow> jsstring" where
  "fallback_answer hits =
     (if length hits \<noteq> 0 then utf16 ''I don't know.''
      else utf16 ''I couldn't find that in our knowledge base.'')"

text \<open>Steps 3 and 4: chat completion, handoff flag, citations, session store, response.\<close>

definition answer_stage :: "services \<Rightarrow> jsstring \<Rightarrow> jsnum \<Rightarrow> json \<Rightarrow> KBRow list \<Rightarrow> call list \<times> response" where
  "answer_stage S q topK sid hits =
     (let top_rows = topForLLM hits topK;
          messages = [\<lparr>msg_role = System, msg_content = system_prompt\<rparr>,
                      \<lparr>msg_role = User,
                       msg_content = user_prompt q (context_of (number_to_string S) top_rows)\<rparr>]
      in case chat_completions S (2 / 10) messages of
           Throws e \<Rightarrow> ([Completions_call (2 / 10) messages], unhandled e)
         | Returns content \<Rightarrow>
             (let a = (case content of Some c \<Rightarrow> c | None \<Rightarrow> fallback_answer hits)
              in (Completions_call (2 / 10) messages # store_turn S sid q a,
                  respond 200 (Answer_body
                    \<lparr>answer = a, citations = citations_of ellipsis top_rows, sources = hits,
                     needs_human_help = needsHumanHelp a hits, session_id = sid\<rparr>))))"

text \<open>Steps 1 and 2: embedding of the normalized query and the hybrid search.\<close>

definition retrieval_stage ::
  "services \<Rightarrow> json \<Rightarrow> jsstring \<Rightarrow> jsnum \<Rightarrow> (KBRow list \<Rightarrow> call list \<times> response) \<Rightarrow> call list \<times> response" where
  "retrieval_stage S b q topK continue =
     (let qNorm = normalizeLocal q in
      case embeddings S qNorm of
        Throws e \<Rightarrow> ([Embeddings_call qNorm], unhandled e)
      | Returns er \<Rightarrow>
          (case emb_embedding er of
             None \<Rightarrow> ([Embeddings_call qNorm],
                       respond 502 (Embedding_error (emb_error er) (emb_status er)))
           | Some embedding \<Rightarrow>
               (let args = \<lparr>q_text = qNorm, q_embedding = embedding,
                            w_semantic = weight_of b ''w_semantic'' (55 / 100),
                            w_lexical = weight_of b ''w_lexical'' (35 / 100),
                            w_trigram = weight_of b ''w_trigram'' (1 / 10),
                            rpc_k = topK\<rparr>
                in case search_rpc S args of
                     Throws e \<Rightarrow> ([Embeddings_call qNorm, Search_call args], unhandled e)
                   | Returns rr \<Rightarrow>
                       (case rpc_error rr of
                          Some m \<Rightarrow> ([Embeddings_call qNorm, Search_call args],
                                      respond 502 (Error_details (utf16 ''Hybrid search failed'') m))
                        | None \<Rightarrow>
                            (let hits = (case rpc_data rr of Some rows \<Rightarrow> rows | None \<Rightarrow> []);
                                 (cs, r) = continue hits
                             in (Embeddings_call qNorm # Search_call args # cs, r))))))"

text \<open>The checks of the environment, before any call.\<close>

definition env_check :: "services \<Rightarrow> response option" where
  "env_check S =
     (let SUPABASE_URL = (case env_SUPABASE_URL S of Some u \<Rightarrow> u | None \<Rightarrow> []);
          SERVICE_ROLE = (case env_SERVICE_ROLE_KEY S of
                            Some r \<Rightarrow> r
                          | None \<Rightarrow> (case env_SUPABASE_SERVICE_ROLE_KEY S of Some r \<Rightarrow> r | None \<Rightarrow> []));
          OPENAI_API_KEY = (case env_OPENAI_API_KEY S of Some u \<Rightarrow> u | None \<Rightarrow> [])
      in if SUPABASE_URL = [] then Some (respond 500 (Error_body (utf16 ''Missing SUPABASE_URL env'')))
         else if SERVICE_ROLE = [] then Some (respond 500 (Error_body (utf16 ''Missing SERVICE_ROLE_KEY env'')))
         else if OPENAI_API_KEY = [] then Some (respond 500 (Error_body (utf16 ''Missing OPENAI_API_KEY env'')))
         else None)"

text \<open>\<open>await req.json().catch(() => ({}))\<close>\<close>

definition body_of :: "request \<Rightarrow> json" where
  "body_of req = (case req_json req of None \<Rightarrow> JObject [] | Some b \<Rightarrow> b)"

text \<open>
  The request parameters are read before the query is checked: a \<open>top_k\<close> whose conversion
  throws ends the request in the outer \<open>catch\<close>.
\<close>

definition serve :: "services \<Rightarrow> request \<Rightarrow> call list \<times> response" where
  "serve S req =
     (if req_method req = ''OPTIONS'' then ([], respond 204 No_body)
      else if req_method req \<noteq> ''POST'' then ([], respond 405 (Error_body (utf16 ''Use POST'')))
      else
        (let b = body_of req in
         if get_field b ''health'' = Some (JBool True) then ([], respond 200 Health_ok)
         else
           (case topK_of (string_to_number S) b of
              Throws e \<Rightarrow> ([], unhandled e)
            | Returns topK \<Rightarrow>
                (let sid = sessionId_of (randomUUID S) b
                 in case get_field b ''query'' of
                      Some (JString q) \<Rightarrow>
                        if q = [] then ([], respond 400 (Error_body (utf16 ''Missing 'query' (string)'')))
                        else (case env_check S of
                                Some r \<Rightarrow> ([], r)
                              | None \<Rightarrow> retrieval_stage S b q topK (answer_stage S q topK sid))
                    | _ \<Rightarrow> ([], respond 400 (Error_body (utf16 ''Missing 'query' (string)'')))))))"

subsection \<open>The conversational handler\<close>

text \<open>
  The second version of the handler (conversation history, social classification). It
  differs from \<open>serve\<close> after the context block is built.
\<close>

definition system_prompt_conv :: jsstring where
  \<open>system_prompt_conv = join [0x0A]
     [utf16 ''You are TylerBot 5000, a friendly, helpful support assistant for a technology company that specializes in Control4 home automation systems. '',
      utf16 ''      '',
      utf16 ''Your primary goal is to provide accurate, helpful information based on the CONTEXT provided, but you should respond in a conversational, engaging manner.'',
      [],
      utf16 ''Guidelines:'',
      utf16 ''- Be warm and personable in your tone'',
      utf16 ''- Use simple, clear language that non-technical users can understand'',
      utf16 ''- When appropriate, ask clarifying questions to better understand the user's issue'',
      utf16 ''- Acknowledge the user's frustration or confusion when they're having problems'',
      utf16 ''- Always cite your sources using [#n] notation when providing technical information'',
      utf16 ''- If you don't know a technical answer, be honest and offer to create a support ticket'',
      utf16 ''- Maintain a helpful, positive tone throughout the conversation'',
      [],
      utf16 ''IMPORTANT: For basic social interactions (greetings, how are you, thanks, etc.), respond naturally without requiring CONTEXT. For example:'',
      utf16 ''- If asked "How are you?", respond positively like "I'm doing great, thanks for asking! How can I help you today?"'',
      utf16 ''- If greeted with "Hello" or "Hi", respond with a friendly greeting'',
      utf16 ''- If thanked, acknowledge with "You're welcome" or similar'',
      utf16 ''- If asked your name, remind them you are TylerBot 5000, a digital assistant'',
      [],
      utf16 ''For all technical questions about Control4, alarms, remotes, or system setup, use ONLY information from the provided CONTEXT and cite your sources.'',
      [],
      utf16 ''Remember that you're speaking with end users who may not be technically savvy, so avoid jargon unless it's in the CONTEXT.'']\<close>

definition fallback_answer_conv :: "KBRow list \<Rightarrow> jsstring" where
  "fallback_answer_conv hits =
     (if length hits \<noteq> 0
      then utf16 ''I'm not sure about that, but I'd be happy to help with any Control4 or home automation questions you might have!''
      else utf16 ''I couldn't find specific information about that in our knowledge base. Is there something else about your Control4 system I can help with?'')"

text \<open>\<open>maxHistoryMessages > 0\<close> is false for NaN.\<close>

fun positive :: "jsnum \<Rightarrow> bool" where
  "positive NaN = False"
| "positive (Num x) = (0 < x)"

fun times2 :: "jsnum \<Rightarrow> jsnum" where
  "times2 NaN = NaN"
| "times2 (Num x) = Num (x * 2)"

text \<open>
  The history fetch: rows of the session in ascending order of timestamp, limited to
  \<open>maxHistoryMessages * 2\<close>. An error result, no data, and an exception all leave the
  history empty.
\<close>

definition fetch_history :: "services \<Rightarrow> json \<Rightarrow> jsnum \<Rightarrow> call list \<times> chat_message list" where
  "fetch_history S sid maxH =
     (if truthy (Some sid) \<and> positive maxH then
        ([History_call sid (times2 maxH)],
         (case select_chat_messages S sid (times2 maxH) of
            Throws e \<Rightarrow> []
          | Returns hr \<Rightarrow>
              (case hist_data hr of
                 Some rows \<Rightarrow> if \<not> hist_error hr \<and> length rows > 0 then rows else []
               | None \<Rightarrow> [])))
      else ([], []))"

text \<open>
  \<open>conversationHistory.slice(-maxHistoryMessages * 2)\<close>: the last \<open>\<lfloor>2 * max\<rfloor>\<close> elements; the
  branch is entered only with a non-empty history, that is with \<open>max > 0\<close>.
\<close>

fun slice_last :: "jsnum \<Rightarrow> 'a list \<Rightarrow> 'a list" where
  "slice_last NaN xs = xs"
| "slice_last (Num n) xs = drop (length xs - nat \<lfloor>n\<rfloor>) xs"

definition messages_conv :: "jsstring \<Rightarrow> jsstring \<Rightarrow> jsnum \<Rightarrow> chat_message list \<Rightarrow> chat_message list" where
  "messages_conv q ctx maxH conversationHistory =
     [\<lparr>msg_role = System, msg_content = system_prompt_conv\<rparr>]
     @ (if length conversationHistory > 0 then slice_last (times2 maxH) conversationHistory else [])
     @ [\<lparr>msg_role = User, msg_content = q @ [0x0A, 0x0A] @ utf16 ''CONTEXT:'' @ [0x0A] @ ctx\<rparr>]"

definition answer_stage_conv ::
  "services \<Rightarrow> jsstring \<Rightarrow> jsnum \<Rightarrow> json \<Rightarrow> jsnum \<Rightarrow> KBRow list \<Rightarrow> call list \<times> response" where
  "answer_stage_conv S q topK sid maxH hits =
     (let top_rows = topForLLM hits topK;
          (hcalls, conversationHistory) = fetch_history S sid maxH;
          messages = messages_conv q (context_of (number_to_string S) top_rows) maxH
                       conversationHistory
      in case chat_completions S (7 / 10) messages of
           Throws e \<Rightarrow> (hcalls @ [Completions_call (7 / 10) messages], unhandled e)
         | Returns content \<Rightarrow>
             (let a = (case content of Some c \<Rightarrow> c | None \<Rightarrow> fallback_answer_conv hits)
              in (hcalls @ Completions_call (7 / 10) messages # store_turn S sid q a,
                  respond 200 (Answer_body
                    \<lparr>answer = a, citations = citations_of ellipsis_conv top_rows, sources = hits,
                     needs_human_help = needsHumanHelp_conv q a hits, session_id = sid\<rparr>))))"

definition serve_conv :: "services \<Rightarrow> request \<Rightarrow> call list \<times> response" where
  "serve_conv S req =
     (if req_method req = ''OPTIONS'' then ([], respond 204 No_body)
      else if req_method req \<noteq> ''POST'' then ([], respond 405 (Error_body (utf16 ''Use POST'')))
      else
        (let b = body_of req in
         if get_field b ''health'' = Some (JBool True) then ([], respond 200 Health_ok)
         else
           (case topK_of (string_to_number S) b of
              Throws e \<Rightarrow> ([], unhandled e)
            | Returns topK \<Rightarrow>
                (let sid = sessionId_of (randomUUID S) b
                 in case maxHistory_of (string_to_number S) b of
                      Throws e \<Rightarrow> ([], unhandled e)
                    | Returns maxH \<Rightarrow>
                        (case get_field b ''query'' of
                           Some (JString q) \<Rightarrow>
                             if q = [] then ([], respond 400 (Error_body (utf16 ''Missing 'query' (string)'')))
                             else (case env_check S of
                                     Some r \<Rightarrow> ([], r)
                                   | None \<Rightarrow>
                                       retrieval_stage S b q topK (answer_stage_conv S q topK sid maxH))
                         | _ \<Rightarrow> ([], respond 400 (Error_body (utf16 ''Missing 'query' (string)''))))))))"

subsection \<open>A deployment for concrete runs\<close>

text \<open>
  A configured deployment whose embedding service answers, whose search returns \<open>rows\<close>, whose
  generation service has the outcome \<open>gen\<close>, and whose session store fetch is \<open>sel\<close>. The
  runs below convert no string to a number and render no score from \<open>10^21\<close> on; the two
  conversions of the platform are constant here.
\<close>

definition deployment ::
  "KBRow list \<Rightarrow> jsstring option outcome \<Rightarrow> (json \<Rightarrow> jsnum \<Rightarrow> history_result outcome) \<Rightarrow> services" where
  "deployment rows gen sel =
     \<lparr>env_SUPABASE_URL = Some (utf16 ''https://project.supabase.co''),
      env_SERVICE_ROLE_KEY = Some (utf16 ''service-role''),
      env_SUPABASE_SERVICE_ROLE_KEY = None,
      env_OPENAI_API_KEY = Some (utf16 ''sk''),
      string_to_number = (\<lambda>v. NaN),
      number_to_string = (\<lambda>x. utf16 ''1e+21''),
      randomUUID = utf16 ''00000000-0000-4000-8000-000000000000'',
      embeddings = (\<lambda>q. Returns \<lparr>emb_embedding = Some [0], emb_error = None, emb_status = 200\<rparr>),
      search_rpc = (\<lambda>a. Returns \<lparr>rpc_data = Some rows, rpc_error = None\<rparr>),
      select_chat_messages = sel,
      chat_completions = (\<lambda>t m. gen),
      insert_chat_message = (\<lambda>sid r c. Returns ())\<rparr>"

definition no_history :: "json \<Rightarrow> jsnum \<Rightarrow> history_result outcome" where
  "no_history sid n = Returns \<lparr>hist_data = Some [], hist_error = False\<rparr>"

definition post :: "(string \<times> json) list \<Rightarrow> request" where
  "post kvs = \<lparr>req_method = ''POST'', req_json = Some (JObject (map (\<lambda>(k, v). (utf16 k, v)) kvs))\<rparr>"

text \<open>The value passed to retrieval is a number in the interval.\<close>

fun within_1_25 :: "jsnum \<Rightarrow> bool" where
  "within_1_25 NaN = False"
| "within_1_25 (Num x) = (1 \<le> x \<and> x \<le> 25)"


section \<open>The session store\<close>

text \<open>
  The table \<open>chat_messages\<close>. Within a session the timestamps are distinct (the table has a
  unique constraint on session and timestamp), so the order by timestamp is determined.
\<close>

record chat_row =
  cm_session_id :: jsstring
  cm_role :: role
  cm_content :: jsstring
  cm_timestamp :: nat

text \<open>
  \<open>.from('chat_messages').select('role, content').eq('session_id', sid)
  .order('timestamp', { ascending: true }).limit(n)\<close>
\<close>

definition history_query :: "chat_row list \<Rightarrow> jsstring \<Rightarrow> nat \<Rightarrow> chat_message list" where
  "history_query tbl sid n =
     map (\<lambda>r. \<lparr>msg_role = cm_role r, msg_content = cm_content r\<rparr>)
       (take n (sort_key cm_timestamp (filter (\<lambda>r. cm_session_id r = sid) tbl)))"

text \<open>
  The store as the handler's collaborator: a limit that is not a natural number and a session
  id that is not a string are answered with an error result.
\<close>

definition session_store :: "chat_row list \<Rightarrow> json \<Rightarrow> jsnum \<Rightarrow> history_result outcome" where
  "session_store tbl sid limit_n =
     (case (sid, limit_n) of
        (JString s, Num n) \<Rightarrow>
          if 0 \<le> n \<and> n = real (nat \<lfloor>n\<rfloor>)
          then Returns \<lparr>hist_data = Some (history_query tbl s (nat \<lfloor>n\<rfloor>)), hist_error = False\<rparr>
          else Returns \<lparr>hist_data = None, hist_error = True\<rparr>
      | _ \<Rightarrow> Returns \<lparr>hist_data = None, hist_error = True\<rparr>)"

text \<open>
  The window the specification asks for, in its words: the \<open>n\<close> most recent pairs of turns of
  the session, oldest first.
\<close>

definition most_recent_turns :: "chat_row list \<Rightarrow> jsstring \<Rightarrow> nat \<Rightarrow> chat_message list" where
  "most_recent_turns tbl sid n =
     (let turns = sort_key cm_timestamp (filter (\<lambda>r. cm_session_id r = sid) tbl)
      in map (\<lambda>r. \<lparr>msg_role = cm_role r, msg_content = cm_content r\<rparr>)
           (drop (length turns - 2 * n) turns))"

text \<open>The history turns a run sent to the generation service, between the system and the final user turn.\<close>

definition history_sent :: "call list \<Rightarrow> chat_message list" where
  "history_sent cs =
     concat (map (\<lambda>c. case c of Completions_call t ms \<Rightarrow> butlast (tl ms) | _ \<Rightarrow> []) cs)"

text \<open>A session of five exchanges, stored at the times 1 to 10.\<close>

definition turn :: "nat \<Rightarrow> chat_row" where
  "turn i = \<lparr>cm_session_id = utf16 ''s1'', cm_role = (if odd i then User else Assistant),
             cm_content = utf16 ''turn '' @ show_nat i, cm_timestamp = i\<rparr>"

definition five_exchanges :: "chat_row list" where
  "five_exchanges = map turn [1, 2, 3, 4, 5, 6, 7, 8, 9, 10]"

section \<open>Hybrid search in the database\<close>

text \<open>
  \<open>search_kb_hybrid\<close> of \<open>001_hybrid_search.sql\<close>. A row of \<open>kb_chunks\<close> is taken together with
  the values the operators and functions of the extensions give for it and the query at hand:
  the cosine distance \<open>embedding <=> q_embedding\<close>, the full-text match \<open>content_tsv @@ tsq\<close>
  and its rank \<open>ts_rank_cd\<close>, the trigram match \<open>content_norm % qn\<close> and the \<open>similarity\<close>.
  Scores are double precision in the database and real numbers here.
\<close>

record chunk =
  chunk_id :: int
  chunk_content :: jsstring
  distance :: real
  ts_match :: bool
  ts_rank :: real
  trgm_match :: bool
  similarity :: real

text \<open>
  \<open>select ... from rows order by key limit n\<close>. SQL leaves the order of rows with equal keys
  open, so the query is a relation between the rows and a result: \<open>out\<close> is a result when it
  is ordered by the key, takes \<open>n\<close> rows of \<open>rows\<close> (all of them if there are fewer), and no row
  left out has a smaller key than a row taken. \<open>unselected\<close> are the rows left out.
\<close>

definition unselected :: "'a list \<Rightarrow> 'a list \<Rightarrow> 'a list" where
  "unselected rows out = fold remove1 out rows"

definition order_by_limit :: "('a \<Rightarrow> real) \<Rightarrow> nat \<Rightarrow> 'a list \<Rightarrow> 'a list \<Rightarrow> bool" where
  "order_by_limit key n rows out =
     (sorted (map key out) \<and> length out = min n (length rows)
      \<and> length (unselected rows out) + length out = length rows
      \<and> list_all (\<lambda>x. list_all (\<lambda>y. key x \<le> key y) (unselected rows out)) out)"

text \<open>
  The same query answered through an approximate index, as the semantic search is when the
  planner reads the \<open>ivfflat\<close> index on the embeddings: the rows come in the order of the key
  and are rows of the table, at most \<open>n\<close>; rows that a scan of the table would return may be
  missing. A result of the exact query is one of the results.
\<close>

definition index_scan_limit :: "('a \<Rightarrow> real) \<Rightarrow> nat \<Rightarrow> 'a list \<Rightarrow> 'a list \<Rightarrow> bool" where
  "index_scan_limit key n rows out =
     (sorted (map key out) \<and> length out \<le> min n (length rows)
      \<and> length (unselected rows out) + length out = length rows)"

text \<open>
  \<open>coalesce(c.val, 0)\<close> of \<open>kb left join cte c using(id)\<close>: one value per row of the CTE with
  the id of the chunk, and the value 0 when the CTE has no such row.
\<close>

definition left_join_score :: "chunk \<Rightarrow> chunk list \<Rightarrow> (chunk \<Rightarrow> real) \<Rightarrow> real list" where
  "left_join_score c cte val =
     (case filter (\<lambda>x. chunk_id x = chunk_id c) cte of
        [] \<Rightarrow> [0]
      | ms \<Rightarrow> map val ms)"

record fused_row =
  f_id :: int
  f_content :: jsstring
  f_score :: real
  sem_score :: real
  lex_score :: real
  tri_score :: real

text \<open>
  The CTE \<open>fused\<close> with the final select list: every row of \<open>kb_chunks\<close>, left-joined with the
  three candidate lists, and its weighted score.
\<close>

definition fused :: "real \<Rightarrow> real \<Rightarrow> real \<Rightarrow> chunk list \<Rightarrow> chunk list \<Rightarrow> chunk list \<Rightarrow> chunk list \<Rightarrow> fused_row list" where
  "fused w_s w_l w_t kb semc lexc tric =
     concat (map (\<lambda>c.
       concat (map (\<lambda>s.
         concat (map (\<lambda>l.
           map (\<lambda>t. \<lparr>f_id = chunk_id c, f_content = chunk_content c,
                      f_score = w_s * s + w_l * l + w_t * t,
                      sem_score = s, lex_score = l, tri_score = t\<rparr>)
             (left_join_score c tric (\<lambda>x. max (similarity x) 0)))
           (left_join_score c lexc ts_rank)))
         (left_join_score c semc (\<lambda>x. 1 - distance x)))) kb)"

text \<open>
  An execution of the query: \<open>sem\<close>, \<open>lex\<close> and \<open>tri\<close> are results of the three candidate
  searches, each limited to \<open>k * 10\<close>, the semantic one possibly through the index, and \<open>out\<close>
  is a result of the final \<open>order by score desc limit k\<close>.
\<close>

definition search_kb_hybrid ::
  "chunk list \<Rightarrow> real \<Rightarrow> real \<Rightarrow> real \<Rightarrow> nat \<Rightarrow> chunk list \<Rightarrow> chunk list \<Rightarrow> chunk list \<Rightarrow> fused_row list \<Rightarrow> bool" where
  "search_kb_hybrid kb w_s w_l w_t k semc lexc tric out =
     (index_scan_limit distance (k * 10) kb semc
      \<and> order_by_limit (\<lambda>c. - ts_rank c) (k * 10) (filter ts_match kb) lexc
      \<and> order_by_limit (\<lambda>c. - max (similarity c) 0) (k * 10) (filter trgm_match kb) tric
      \<and> order_by_limit (\<lambda>r. - f_score r) k (fused w_s w_l w_t kb semc lexc tric) out)"

text \<open>
  The order the specification asks for, in its words: descending by score, ties broken by
  ascending passage id.
\<close>

definition fusion_order_spec :: "fused_row list \<Rightarrow> bool" where
  "fusion_order_spec out =
     sorted_wrt (\<lambda>a b. f_score a > f_score b \<or> (f_score a = f_score b \<and> f_id a < f_id b)) out"

text \<open>The ids a candidate search surfaced.\<close>

definition surfaced :: "chunk list \<Rightarrow> chunk list \<Rightarrow> chunk list \<Rightarrow> int set" where
  "surfaced semc lexc tric = chunk_id ` (set semc \<union> set lexc \<union> set tric)"

text \<open>The values of \<open>k\<close> a run passed to the retrieval backend.\<close>

definition retrieval_k :: "call list \<Rightarrow> jsnum list" where
  "retrieval_k cs = concat (map (\<lambda>c. case c of Search_call a \<Rightarrow> [rpc_k a] | _ \<Rightarrow> []) cs)"


section \<open>Data for concrete runs\<close>

text \<open>Three search results with top-K 2: two blocks, two citations.\<close>

definition three_hits :: "KBRow list" where
  "three_hits =
     [\<lparr>row_id = Some (utf16 ''7''), row_content = utf16 ''Hold the pairing button.'',
       row_score = Some (9 / 10), source_url = None, source_title = Some (utf16 ''Remotes''),
       updated_at = None\<rparr>,
      \<lparr>row_id = Some (utf16 ''3''), row_content = utf16 ''Replace the batteries.'',
       row_score = Some (5124 / 10000), source_url = None, source_title = None, updated_at = None\<rparr>,
      \<lparr>row_id = Some (utf16 ''9''), row_content = utf16 ''Restart the controller.'',
       row_score = None, source_url = None, source_title = None, updated_at = None\<rparr>]"

text \<open>
  Two chunks with the same signals, and eleven chunks that all point away from the query
  (cosine distance above 1) and match neither the full-text nor the trigram search.
\<close>

definition twin :: "int \<Rightarrow> chunk" where
  "twin i = \<lparr>chunk_id = i, chunk_content = utf16 ''Hold the pairing button.'', distance = 1 / 4,
             ts_match = False, ts_rank = 0, trgm_match = False, similarity = 0\<rparr>"

definition twin_row :: "int \<Rightarrow> fused_row" where
  "twin_row i = \<lparr>f_id = i, f_content = utf16 ''Hold the pairing button.'',
                 f_score = 55 / 100 * (3 / 4) + 35 / 100 * 0 + 1 / 10 * 0,
                 sem_score = 3 / 4, lex_score = 0, tri_score = 0\<rparr>"

definition away :: "int \<Rightarrow> chunk" where
  "away i = \<lparr>chunk_id = i, chunk_content = [], distance = 1 + real_of_int i / 100,
             ts_match = False, ts_rank = 0, trgm_match = False, similarity = 0\<rparr>"

definition eleven_away :: "chunk list" where
  "eleven_away = map away [1, 2, 3, 4, 5, 6, 7, 8, 9, 10, 11]"

text \<open>
  Eleven chunks near the query (cosine distance below 1) that match neither the full-text nor
  the trigram search, and a passage whose content holds a line that reads like a marker.
\<close>

definition near :: "int \<Rightarrow> chunk" where
  "near i = \<lparr>chunk_id = i, chunk_content = [], distance = real_of_int i / 100,
             ts_match = False, ts_rank = 0, trgm_match = False, similarity = 0\<rparr>"

definition eleven_near :: "chunk list" where
  "eleven_near = map near [1, 2, 3, 4, 5, 6, 7, 8, 9, 10, 11]"

definition plain_row :: "jsstring \<Rightarrow> KBRow" where
  "plain_row c = \<lparr>row_id = None, row_content = c, row_score = None, source_url = None,
                   source_title = None, updated_at = None\<rparr>"

definition quoting_row :: KBRow where
  "quoting_row = plain_row (utf16 ''a'' @ [0x0A, 0x0A] @ utf16 ''[#2 | score=0.000]'' @ [0x0A] @ utf16 ''b'')"

section \<open>Evaluation rules\<close>

lemma utf16_Nil: "utf16 [] = []"
  by (simp add: utf16_def)

lemma utf16_Cons: "utf16 (c # cs) = of_char c # utf16 cs"
  by (simp add: utf16_def)

lemmas utf16_simps = utf16_Nil utf16_Cons

lemma show_nat_nonempty: "show_nat n \<noteq> []"
  by (subst show_nat.simps) simp

lemma show_nat_small: "n < 10 \<Longrightarrow> show_nat n = [digit n]"
  by (subst show_nat.simps) simp

lemma show_nat_large: "\<not> n < 10 \<Longrightarrow> show_nat n = show_nat (n div 10) @ [digit n]"
  by (subst show_nat.simps) simp

section \<open>Request validation and the health check\<close>

lemma missing_query_rejected:
  assumes "req_method req = ''POST''"
    and "get_field (body_of req) ''health'' \<noteq> Some (JBool True)"
    and "topK_of (string_to_number S) (body_of req) = Returns topK"
    and "get_field (body_of req) ''query'' = None"
  shows "serve S req = ([], respond 400 (Error_body (utf16 ''Missing 'query' (string)'')))"
  using assms by (simp add: serve_def)

text \<open>
  C10. A POST request whose JSON body has \<open>health == true\<close> is answered with status 200 and
  the body \<open>{ok: true}\<close>, and the handler calls none of the embedding service, the retrieval
  backend, the generation service and the session store. This holds whatever else the body
  contains, so also for a body without a query, which would otherwise be rejected with 400.
\<close>

theorem health_check_short_circuit:
  assumes "req_method req = ''POST''"
    and "get_field (body_of req) ''health'' = Some (JBool True)"
  shows "serve S req = ([], respond 200 Health_ok)"
  using assms by (simp add: serve_def)

theorem health_check_short_circuit_witness:
  "req_method (post [(''health'', JBool True)]) = ''POST''
   \<and> get_field (body_of (post [(''health'', JBool True)])) ''health'' = Some (JBool True)
   \<and> get_field (body_of (post [(''health'', JBool True)])) ''query'' = None
   \<and> serve (deployment [] (Throws []) no_history) (post [(''health'', JBool True)])
       = ([], respond 200 Health_ok)
   \<and> serve (deployment [] (Throws []) no_history) (post [])
       = ([], respond 400 (Error_body (utf16 ''Missing 'query' (string)'')))"
proof -
  let ?r = "post [(''health'', JBool True)]"
  have m: "req_method ?r = ''POST''"
    by (simp add: post_def)
  have h: "get_field (body_of ?r) ''health'' = Some (JBool True)"
    by (simp add: post_def body_of_def utf16_simps)
  have q: "get_field (body_of ?r) ''query'' = None"
    by (simp add: post_def body_of_def utf16_simps)
  have e: "serve (deployment [] (Throws []) no_history) (post [])
             = ([], respond 400 (Error_body (utf16 ''Missing 'query' (string)'')))"
    by (rule missing_query_rejected [where topK = "Num 10"])
       (simp_all add: post_def body_of_def topK_of_def)
  show ?thesis
    using health_check_short_circuit [OF m h] m h q e by simp
qed

section \<open>The effective top-K\<close>

lemma topK_absent:
  "get_field b ''top_k'' = None \<or> get_field b ''top_k'' = Some JNull \<Longrightarrow>
     topK_of sn b = Returns (Num 10)"
  by (auto simp add: topK_of_def)

lemma topK_number:
  "get_field b ''top_k'' = Some (JNumber x) \<Longrightarrow> topK_of sn b = Returns (Num (max 1 (min x 25)))"
  by (simp add: topK_of_def)

lemma topK_number_within:
  "get_field b ''top_k'' = Some (JNumber x) \<Longrightarrow> \<exists>n. topK_of sn b = Returns n \<and> within_1_25 n"
  by (simp add: topK_of_def)

lemma topK_throws:
  "get_field b ''top_k'' = Some v \<Longrightarrow> to_primitive_throws v \<Longrightarrow>
     topK_of sn b = Throws TypeError_primitive"
  by (cases v) (simp_all add: topK_of_def)

text \<open>
  C9. The effective top-K is 10 when \<open>top_k\<close> is absent and the clamped value when it is a
  number (the three lemmas above), but not in all cases a number of the interval [1,25]: for
  the body \<open>{"query": "q", "top_k": {}}\<close> the conversion \<open>Number\<close> gives NaN, both \<open>Math.min\<close>
  and \<open>Math.max\<close> pass NaN on, and NaN is the \<open>k\<close> of the call of the retrieval backend.
\<close>

theorem topK_of_object_is_NaN:
  "topK_of (string_to_number (deployment [] (Returns None) no_history))
      (body_of (post [(''query'', JString (utf16 ''q'')), (''top_k'', JObject [])])) = Returns NaN
   \<and> retrieval_k (fst (serve (deployment [] (Returns None) no_history)
                         (post [(''query'', JString (utf16 ''q'')), (''top_k'', JObject [])]))) = [NaN]
   \<and> \<not> within_1_25 NaN"
  by (simp add: serve_def post_def body_of_def utf16_simps deployment_def env_check_def
        retrieval_stage_def answer_stage_def sessionId_of_def topForLLM_def fallback_answer_def
        citations_of_def needsHumanHelp_def store_turn_def enumerate_eq_zip Let_def topK_of_def
        retrieval_k_def)

section \<open>Failure of the generation service\<close>

lemma serve_reaches_generation:
  assumes "req_method req = ''POST''"
    and "get_field (body_of req) ''health'' \<noteq> Some (JBool True)"
    and "get_field (body_of req) ''query'' = Some (JString q)" and "q \<noteq> []"
    and "env_check S = None"
    and "embeddings S (normalizeLocal q) = Returns er" and "emb_embedding er = Some v"
    and "\<And>a. search_rpc S a = Returns rr" and "rpc_error rr = None"
    and "topK_of (string_to_number S) (body_of req) = Returns topK"
  shows "snd (serve S req) =
           snd (answer_stage S q topK (sessionId_of (randomUUID S) (body_of req))
                  (case rpc_data rr of Some rows \<Rightarrow> rows | None \<Rightarrow> []))"
  using assms by (simp add: serve_def retrieval_stage_def Let_def split: prod.split)

lemma serve_conversion_throws:
  assumes "req_method req = ''POST''"
    and "get_field (body_of req) ''health'' \<noteq> Some (JBool True)"
    and "topK_of (string_to_number S) (body_of req) = Throws e"
  shows "serve S req = ([], respond 500 (Error_details (utf16 ''Unhandled error'') e))"
  using assms by (simp add: serve_def unhandled_def)

lemma answer_stage_response:
  "snd (answer_stage S q topK sid hits) =
     (case chat_completions S (2 / 10)
             [\<lparr>msg_role = System, msg_content = system_prompt\<rparr>,
              \<lparr>msg_role = User,
               msg_content = user_prompt q (context_of (number_to_string S) (topForLLM hits topK))\<rparr>] of
        Throws e \<Rightarrow> unhandled e
      | Returns content \<Rightarrow>
          respond 200 (Answer_body
            \<lparr>answer = (case content of Some c \<Rightarrow> c | None \<Rightarrow> fallback_answer hits),
             citations = citations_of ellipsis (topForLLM hits topK), sources = hits,
             needs_human_help =
               needsHumanHelp (case content of Some c \<Rightarrow> c | None \<Rightarrow> fallback_answer hits) hits,
             session_id = sid\<rparr>))"
  by (simp add: answer_stage_def Let_def split: outcome.split)

lemma non_answer_dont_know: "non_answer (utf16 ''I don't know.'')"
  by (simp add: non_answer_def noAnswerPatterns_def canonicalize_def test_i_def utf16_simps)

text \<open>
  C5, as the code has it. For a request with a query, in a configured deployment whose
  embedding and search steps succeed, the response is decided as follows. When the
  conversion of \<open>top_k\<close> throws, the request ends before any call with status 500
  "Unhandled error". Otherwise it reaches the generation step and the outcome of the
  generation call decides: an exception (a network failure, a body that is not JSON) is
  surfaced as status 500 "Unhandled error"; a payload without answer content is answered with
  status 200 and a fallback answer ("I don't know." when there are hits, "I couldn't find
  that in our knowledge base." when there are none) with \<open>needs_human_help\<close> set; a payload
  with content is answered with that content.
\<close>

theorem generation_failure_outcomes:
  assumes "req_method req = ''POST''"
    and "get_field (body_of req) ''health'' \<noteq> Some (JBool True)"
    and "get_field (body_of req) ''query'' = Some (JString q)" and "q \<noteq> []"
    and "env_check S = None"
    and "embeddings S (normalizeLocal q) = Returns er" and "emb_embedding er = Some v"
    and "\<And>a. search_rpc S a = Returns rr" and "rpc_error rr = None"
    and "rpc_data rr = Some hits"
    and "\<And>t m. chat_completions S t m = gen"
  shows "(case topK_of (string_to_number S) (body_of req) of
            Throws e \<Rightarrow>
              serve S req = ([], respond 500 (Error_details (utf16 ''Unhandled error'') e))
          | Returns topK \<Rightarrow>
              snd (serve S req) =
                (case gen of
                   Throws e \<Rightarrow> respond 500 (Error_details (utf16 ''Unhandled error'') e)
                 | Returns None \<Rightarrow>
                     respond 200 (Answer_body
                       \<lparr>answer = (if length hits \<noteq> 0 then utf16 ''I don't know.''
                                   else utf16 ''I couldn't find that in our knowledge base.''),
                        citations = citations_of ellipsis (topForLLM hits topK),
                        sources = hits, needs_human_help = True,
                        session_id = sessionId_of (randomUUID S) (body_of req)\<rparr>)
                 | Returns (Some c) \<Rightarrow>
                     respond 200 (Answer_body
                       \<lparr>answer = c,
                        citations = citations_of ellipsis (topForLLM hits topK),
                        sources = hits, needs_human_help = needsHumanHelp c hits,
                        session_id = sessionId_of (randomUUID S) (body_of req)\<rparr>)))"
proof (cases "topK_of (string_to_number S) (body_of req)")
  case (Throws e)
  with serve_conversion_throws [OF assms(1,2)] show ?thesis
    by simp
next
  case (Returns topK)
  have "snd (serve S req) =
          snd (answer_stage S q topK (sessionId_of (randomUUID S) (body_of req)) hits)"
    using serve_reaches_generation [OF assms(1-9) Returns] assms(10) by simp
  moreover have "needsHumanHelp (utf16 ''I don't know.'') hits"
    using non_answer_dont_know by (simp add: needsHumanHelp_def)
  moreover have "needsHumanHelp a []" for a
    by (simp add: needsHumanHelp_def)
  ultimately show ?thesis
    by (simp add: Returns answer_stage_response assms(11) unhandled_def fallback_answer_def
             split: outcome.split option.split)
qed

text \<open>
  Two runs with the query "my remote won't pair": the generation call fails with a network
  error; and the body carries \<open>"top_k": {"toString": 1}\<close>, whose conversion throws.
\<close>

theorem generation_failure_outcomes_witness:
  "env_check (deployment [] (Throws (utf16 ''TypeError: fetch failed'')) no_history) = None
   \<and> snd (serve (deployment [] (Throws (utf16 ''TypeError: fetch failed'')) no_history)
          (post [(''query'', JString (utf16 ''my remote won't pair''))]))
     = respond 500 (Error_details (utf16 ''Unhandled error'') (utf16 ''TypeError: fetch failed''))
   \<and> serve (deployment [] (Throws (utf16 ''TypeError: fetch failed'')) no_history)
          (post [(''query'', JString (utf16 ''my remote won't pair'')),
                 (''top_k'', JObject [(utf16 ''toString'', JNumber 1)])])
     = ([], respond 500 (Error_details (utf16 ''Unhandled error'') TypeError_primitive))"
proof -
  let ?S = "deployment [] (Throws (utf16 ''TypeError: fetch failed'')) no_history"
  let ?r = "post [(''query'', JString (utf16 ''my remote won't pair''))]"
  let ?t = "post [(''query'', JString (utf16 ''my remote won't pair'')),
                  (''top_k'', JObject [(utf16 ''toString'', JNumber 1)])]"
  have 1: "req_method ?r = ''POST''" "req_method ?t = ''POST''"
    by (simp_all add: post_def)
  have 2: "get_field (body_of ?r) ''health'' \<noteq> Some (JBool True)"
    "get_field (body_of ?t) ''health'' \<noteq> Some (JBool True)"
    by (simp_all add: post_def body_of_def utf16_simps)
  have 3: "get_field (body_of ?r) ''query'' = Some (JString (utf16 ''my remote won't pair''))"
    "get_field (body_of ?t) ''query'' = Some (JString (utf16 ''my remote won't pair''))"
    by (simp_all add: post_def body_of_def utf16_simps)
  have 4: "utf16 ''my remote won't pair'' \<noteq> []"
    by (simp add: utf16_simps)
  have 5: "env_check ?S = None"
    by (simp add: env_check_def deployment_def utf16_simps)
  have 6: "embeddings ?S (normalizeLocal (utf16 ''my remote won't pair''))
             = Returns \<lparr>emb_embedding = Some [0], emb_error = None, emb_status = 200\<rparr>"
    by (simp add: deployment_def)
  have 7: "emb_embedding \<lparr>emb_embedding = Some [0], emb_error = None, emb_status = 200\<rparr> = Some [0]"
    by simp
  have 8: "\<And>a. search_rpc ?S a = Returns \<lparr>rpc_data = Some [], rpc_error = None\<rparr>"
    by (simp add: deployment_def)
  have 9: "rpc_error \<lparr>rpc_data = Some [], rpc_error = None\<rparr> = None"
    by simp
  have 10: "rpc_data \<lparr>rpc_data = Some [], rpc_error = None\<rparr> = Some []"
    by simp
  have 11: "\<And>t m. chat_completions ?S t m = Throws (utf16 ''TypeError: fetch failed'')"
    by (simp add: deployment_def)
  have k: "topK_of (string_to_number ?S) (body_of ?r) = Returns (Num 10)"
    by (rule topK_absent) (simp add: post_def body_of_def utf16_simps)
  have t: "topK_of (string_to_number ?S) (body_of ?t) = Throws TypeError_primitive"
    by (rule topK_throws [where v = "JObject [(utf16 ''toString'', JNumber 1)]"])
       (simp_all add: post_def body_of_def utf16_simps)
  show ?thesis
    using generation_failure_outcomes [OF 1(1) 2(1) 3(1) 4 5 6 7 8 9 10 11]
      generation_failure_outcomes [OF 1(2) 2(2) 3(2) 4 5 6 7 8 9 10 11] 5
    by (simp add: k t)
qed

text \<open>
  C5 as stated fails: the generation service returns a payload without answer content, and
  the response is a successful one that carries the fallback answer.
\<close>

theorem generation_payload_without_content_counterexample:
  "snd (serve (deployment [] (Returns None) no_history)
          (post [(''query'', JString (utf16 ''my remote won't pair''))]))
     = respond 200 (Answer_body
         \<lparr>answer = utf16 ''I couldn't find that in our knowledge base.'',
          citations = [], sources = [], needs_human_help = True,
          session_id = JString (utf16 ''00000000-0000-4000-8000-000000000000'')\<rparr>)"
  by (simp add: serve_def post_def body_of_def utf16_simps deployment_def env_check_def
        retrieval_stage_def answer_stage_def sessionId_of_def topForLLM_def fallback_answer_def
        citations_of_def needsHumanHelp_def store_turn_def enumerate_eq_zip Let_def topK_of_def)

section \<open>The handoff decision\<close>

lemma serve_conv_answer:
  assumes "serve_conv S req = (cs, respond 200 (Answer_body ar))"
    and "get_field (body_of req) ''query'' = Some (JString q)"
  shows "needs_human_help ar = needsHumanHelp_conv q (answer ar) (sources ar)"
  using assms
  by (auto simp: serve_conv_def retrieval_stage_def answer_stage_conv_def respond_def unhandled_def
        env_check_def Let_def
      split: if_splits option.splits outcome.splits prod.splits)

lemma serve_answer:
  assumes "serve S req = (cs, respond 200 (Answer_body ar))"
  shows "needs_human_help ar = needsHumanHelp (answer ar) (sources ar)"
  using assms
  by (auto simp: serve_def retrieval_stage_def answer_stage_def respond_def unhandled_def
        env_check_def Let_def
      split: if_splits option.splits outcome.splits prod.splits json.splits)

lemma social_hi_there: "isSocialQuestion (utf16 ''hi there'')"
  by (simp add: isSocialQuestion_def socialPatterns_def canonicalize_def test_i_def utf16_simps)

lemma not_social_remote: "\<not> isSocialQuestion (utf16 ''my remote won't pair'')"
  by (simp add: isSocialQuestion_def socialPatterns_def canonicalize_def test_i_def utf16_simps)

lemma serve_conv_run:
  "snd (serve_conv (deployment [] (Returns (Some a)) no_history) (post [(''query'', JString (c # q))]))
     = respond 200 (Answer_body
         \<lparr>answer = a, citations = [], sources = [],
          needs_human_help = needsHumanHelp_conv (c # q) a [],
          session_id = JString (utf16 ''00000000-0000-4000-8000-000000000000'')\<rparr>)"
  by (simp add: serve_conv_def post_def body_of_def utf16_simps deployment_def env_check_def
        retrieval_stage_def answer_stage_conv_def sessionId_of_def topForLLM_def
        citations_of_def store_turn_def enumerate_eq_zip Let_def fetch_history_def
        maxHistory_of_def topK_of_def no_history_def split: prod.split)

text \<open>
  C1, as the code has it. In the conversational handler every answer response has
  \<open>needs_human_help = NOT social AND (non-answer OR candidateCount == 0)\<close>, where the
  candidate count is the number of rows the search returned. The handler of
  \<open>ask-bot/index.ts\<close> has no social classification: there every answer response has
  \<open>needs_human_help = non-answer OR candidateCount == 0\<close>.
\<close>

theorem handoff_decision:
  assumes "get_field (body_of req) ''query'' = Some (JString q)"
  shows "(serve_conv S req = (cs, respond 200 (Answer_body ar)) \<longrightarrow>
            needs_human_help ar =
              (\<not> isSocialQuestion q \<and> (non_answer (answer ar) \<or> length (sources ar) = 0)))
       \<and> (serve S req = (cs', respond 200 (Answer_body ar')) \<longrightarrow>
            needs_human_help ar' = (non_answer (answer ar') \<or> length (sources ar') = 0))"
  using serve_conv_answer [OF _ assms] serve_answer
  by (auto simp: needsHumanHelp_conv_def needsHumanHelp_def)

text \<open>
  The two runs of the specification on the conversational handler, both with zero retrieval
  candidates: "hi there" is social and is not escalated, "my remote won't pair" is escalated.
\<close>

theorem handoff_decision_witness:
  "isSocialQuestion (utf16 ''hi there'')
   \<and> (\<exists>ar. snd (serve_conv (deployment [] (Returns (Some (utf16 ''Hello!''))) no_history)
                  (post [(''query'', JString (utf16 ''hi there''))]))
              = respond 200 (Answer_body ar)
            \<and> sources ar = [] \<and> needs_human_help ar = False)
   \<and> \<not> isSocialQuestion (utf16 ''my remote won't pair'')
   \<and> (\<exists>ar. snd (serve_conv (deployment [] (Returns (Some (utf16 ''Try again.''))) no_history)
                  (post [(''query'', JString (utf16 ''my remote won't pair''))]))
              = respond 200 (Answer_body ar)
            \<and> sources ar = [] \<and> needs_human_help ar = True)"
proof -
  let ?S1 = "deployment [] (Returns (Some (utf16 ''Hello!''))) no_history"
  let ?r1 = "post [(''query'', JString (utf16 ''hi there''))]"
  let ?S2 = "deployment [] (Returns (Some (utf16 ''Try again.''))) no_history"
  let ?r2 = "post [(''query'', JString (utf16 ''my remote won't pair''))]"
  obtain ar1 where run1: "snd (serve_conv ?S1 ?r1) = respond 200 (Answer_body ar1)"
    and src1: "sources ar1 = []"
    using serve_conv_run [of "utf16 ''Hello!''" "of_char CHR ''h''" "utf16 ''i there''"]
    by (simp add: utf16_simps)
  obtain ar2 where run2: "snd (serve_conv ?S2 ?r2) = respond 200 (Answer_body ar2)"
    and src2: "sources ar2 = []"
    using serve_conv_run [of "utf16 ''Try again.''" "of_char CHR ''m''" "utf16 ''y remote won't pair''"]
    by (simp add: utf16_simps)
  have q1: "get_field (body_of ?r1) ''query'' = Some (JString (utf16 ''hi there''))"
    by (simp add: post_def body_of_def utf16_simps)
  have q2: "get_field (body_of ?r2) ''query'' = Some (JString (utf16 ''my remote won't pair''))"
    by (simp add: post_def body_of_def utf16_simps)
  have "needs_human_help ar1 = False"
    using handoff_decision [OF q1, of ?S1 "fst (serve_conv ?S1 ?r1)" ar1] run1 social_hi_there
    by (simp add: prod_eq_iff)
  moreover have "needs_human_help ar2 = True"
    using handoff_decision [OF q2, of ?S2 "fst (serve_conv ?S2 ?r2)" ar2] run2 src2 not_social_remote
    by (simp add: prod_eq_iff)
  ultimately show ?thesis
    using run1 run2 src1 src2 social_hi_there not_social_remote by blast
qed

text \<open>
  C1 as stated fails for the handler of \<open>ask-bot/index.ts\<close>: the query "hi there" matches the
  social patterns, the search returns no candidates, and the response has
  \<open>needs_human_help == true\<close>.
\<close>

theorem handoff_social_counterexample:
  "isSocialQuestion (utf16 ''hi there'')
   \<and> snd (serve (deployment [] (Returns (Some (utf16 ''Hello!''))) no_history)
            (post [(''query'', JString (utf16 ''hi there''))]))
       = respond 200 (Answer_body
           \<lparr>answer = utf16 ''Hello!'', citations = [], sources = [], needs_human_help = True,
            session_id = JString (utf16 ''00000000-0000-4000-8000-000000000000'')\<rparr>)"
  using social_hi_there
  by (simp add: serve_def post_def body_of_def utf16_simps deployment_def env_check_def
        retrieval_stage_def answer_stage_def sessionId_of_def topForLLM_def
        citations_of_def needsHumanHelp_def store_turn_def enumerate_eq_zip Let_def topK_of_def)


section \<open>Context block and citations\<close>

lemma digit_inj: "digit a = digit b \<longleftrightarrow> a mod 10 = b mod 10"
  by (simp add: digit_def)

lemma show_nat_inj: "show_nat n = show_nat m \<Longrightarrow> n = m"
proof (induction n arbitrary: m rule: show_nat.induct)
  case (1 n)
  show ?case
  proof (cases "n < 10")
    case True
    show ?thesis
    proof (cases "m < 10")
      case m: True
      with True 1(2) show ?thesis
        by (simp add: show_nat_small digit_def)
    next
      case m: False
      with True 1(2) show ?thesis
        using show_nat_nonempty [of "m div 10"] by (simp add: show_nat_small show_nat_large)
    qed
  next
    case False
    show ?thesis
    proof (cases "m < 10")
      case m: True
      with False 1(2) show ?thesis
        using show_nat_nonempty [of "n div 10"] by (simp add: show_nat_small show_nat_large)
    next
      case m: False
      from False m 1(2) have eq: "show_nat (n div 10) = show_nat (m div 10)"
        and d: "digit n = digit m"
        by (simp_all add: show_nat_large)
      from 1(1) [OF False eq] have "n div 10 = m div 10" .
      moreover from d have "n mod 10 = m mod 10"
        by (simp add: digit_inj)
      ultimately show ?thesis
        by (metis div_mult_mod_eq)
    qed
  qed
qed

lemma marker_inj: "inj marker"
  by (auto simp: inj_def marker_def dest: show_nat_inj)

lemma length_topForLLM: "length (topForLLM hits topK) \<le> length hits"
  by (simp add: topForLLM_def)

lemma length_topForLLM_k: "0 \<le> k \<Longrightarrow> real (length (topForLLM hits (Num k))) \<le> k"
  by (auto simp add: topForLLM_def min_def) linarith+

subsection \<open>Markers in the rendered context\<close>

lemma show_nat_digits: "c \<in> set (show_nat n) \<Longrightarrow> is_digit c"
proof (induction n rule: show_nat.induct)
  case (1 n)
  have d: "is_digit (digit m)" for m
    by (simp add: is_digit_def digit_def)
  show ?case
  proof (cases "n < 10")
    case True
    with 1(2) d show ?thesis
      by (simp add: show_nat_small)
  next
    case False
    with 1 d show ?thesis
      by (auto simp: show_nat_large)
  qed
qed

lemma show_nat_free: "0x5B \<notin> set (show_nat n)"
  using show_nat_digits [of "0x5B" n] by (auto simp: is_digit_def)

lemma toFixed3_free:
  assumes "\<forall>x. 0x5B \<notin> set (num_str x)"
  shows "0x5B \<notin> set (toFixed3 num_str y)"
proof -
  have d: "digit m \<noteq> 0x5B" for m
    using show_nat_free [of "m mod 10"] by (simp add: show_nat_small digit_def)
  have s: "0x5B \<notin> set (utf16 ''-'')" "0x5B \<notin> set (utf16 ''.'')"
    by (simp_all add: utf16_simps)
  show ?thesis
    unfolding toFixed3_def Let_def using assms d s show_nat_free
    by (simp del: of_nat_numeral)
qed

lemma pieces_nonempty: "pieces s \<noteq> []"
  by (cases s) simp_all

lemma pieces_eval:
  "pieces (c # cs) =
     (case pieces cs of
        [] \<Rightarrow> []
      | p # ps \<Rightarrow> if prefix_of (utf16 ''[#'') (c # cs) then [] # (c # p) # ps else (c # p) # ps)"
  using pieces_nonempty [of cs] by (cases "pieces cs") simp_all

text \<open>A text without \<open>[\<close> is not cut, and neither is a text in which \<open>[#\<close> does not occur.\<close>

lemma pieces_free: "0x5B \<notin> set w \<Longrightarrow> pieces (w @ v) = (w @ hd (pieces v)) # tl (pieces v)"
proof (induction w)
  case Nil
  have "pieces v \<noteq> []"
    by (cases v) simp_all
  then show ?case by simp
next
  case (Cons c w)
  then show ?case
    by (simp add: utf16_simps)
qed

lemma pieces_content:
  assumes "\<not> occurs_in (utf16 ''[#'') c" and "v = [] \<or> hd v \<noteq> 0x23"
  shows "pieces (c @ v) = (c @ hd (pieces v)) # tl (pieces v)"
  using assms(1)
proof (induction c)
  case Nil
  have "pieces v \<noteq> []"
    by (cases v) simp_all
  then show ?case by simp
next
  case (Cons x xs)
  from Cons.prems have n: "\<not> prefix_of (utf16 ''[#'') (x # xs)" and r: "\<not> occurs_in (utf16 ''[#'') xs"
    by simp_all
  have "\<not> prefix_of (utf16 ''[#'') (x # xs @ v)"
  proof (cases xs)
    case Nil
    with assms(2) show ?thesis
      by (cases v) (auto simp: utf16_simps)
  next
    case (Cons y ys)
    with n show ?thesis
      by (simp add: utf16_simps)
  qed
  with Cons.IH [OF r] show ?case
    by simp
qed

lemma pieces_block:
  assumes "0x5B \<notin> set w" and "\<not> occurs_in (utf16 ''[#'') c" and "v = [] \<or> hd v \<noteq> 0x23"
  shows "pieces (utf16 ''[#'' @ w @ c @ v) = [] # (utf16 ''[#'' @ w @ c @ hd (pieces v)) # tl (pieces v)"
proof -
  have "pieces ((0x23 # w) @ c @ v) = ((0x23 # w) @ hd (pieces (c @ v))) # tl (pieces (c @ v))"
    using assms(1) by (intro pieces_free) simp
  then show ?thesis
    by (simp add: utf16_simps pieces_content [OF assms(2,3)])
qed

lemma pieces_join:
  assumes "\<forall>b\<in>set bs. \<exists>w c. b = utf16 ''[#'' @ w @ c \<and> 0x5B \<notin> set w \<and> \<not> occurs_in (utf16 ''[#'') c"
    and "bs \<noteq> []"
  shows "pieces (join [0x0A, 0x0A] bs) = [] # map (\<lambda>b. b @ [0x0A, 0x0A]) (butlast bs) @ [last bs]"
  using assms
proof (induction bs)
  case Nil
  then show ?case by simp
next
  case (Cons x bs)
  from Cons.prems(1) obtain w c where x: "x = utf16 ''[#'' @ w @ c" "0x5B \<notin> set w"
    "\<not> occurs_in (utf16 ''[#'') c"
    by auto
  show ?case
  proof (cases bs)
    case Nil
    from pieces_block [OF x(2,3), of "[]"] x(1) Nil show ?thesis
      by simp
  next
    case (Cons y ys)
    let ?J = "join [0x0A, 0x0A] bs"
    from Cons.IH Cons.prems(1) Cons
    have J: "pieces ?J = [] # map (\<lambda>b. b @ [0x0A, 0x0A]) (butlast bs) @ [last bs]"
      by simp
    have "pieces ([0x0A, 0x0A] @ ?J) = ([0x0A, 0x0A] @ hd (pieces ?J)) # tl (pieces ?J)"
      by (intro pieces_free) simp
    with J have sep: "pieces ([0x0A, 0x0A] @ ?J)
        = [0x0A, 0x0A] # map (\<lambda>b. b @ [0x0A, 0x0A]) (butlast bs) @ [last bs]"
      by simp
    have "pieces (utf16 ''[#'' @ w @ c @ [0x0A, 0x0A] @ ?J)
        = [] # (utf16 ''[#'' @ w @ c @ hd (pieces ([0x0A, 0x0A] @ ?J)))
             # tl (pieces ([0x0A, 0x0A] @ ?J))"
      by (rule pieces_block [OF x(2,3)]) simp
    with sep x(1) Cons show ?thesis
      by simp
  qed
qed

lemma nth_joined:
  assumes "i < length bs"
  shows "(map (\<lambda>b. b @ sep) (butlast bs) @ [last bs]) ! i
           = bs ! i @ (if i + 1 < length bs then sep else [])"
proof (cases "i + 1 < length bs")
  case True
  then have "i < length (butlast bs)"
    by simp
  with True show ?thesis
    by (simp add: nth_append nth_butlast)
next
  case False
  with assms have "i = length (butlast bs)" and "bs \<noteq> []"
    by auto
  with False show ?thesis
    by (simp add: nth_append last_conv_nth)
qed

lemma marker_label_block: "marker_label (utf16 ''[#'' @ show_nat n @ utf16 '' | score='' @ t) = show_nat n"
proof -
  have "takeWhile is_digit (show_nat n @ 0x20 # r) = show_nat n" for r
    using show_nat_digits [of _ n] by (simp add: takeWhile_tail is_digit_def)
  then show ?thesis
    by (simp add: marker_label_def utf16_simps)
qed

lemma context_block_form:
  assumes "\<forall>x. 0x5B \<notin> set (num_str x)" and "\<not> occurs_in (utf16 ''[#'') (row_content r)"
  shows "\<exists>w c. context_block num_str i r = utf16 ''[#'' @ w @ c \<and> 0x5B \<notin> set w
           \<and> \<not> occurs_in (utf16 ''[#'') c"
proof -
  let ?w = "show_nat (i + 1) @ utf16 '' | score='' @ toFixed3 num_str (score_of r) @ utf16 '']'' @ [0x0A]"
  have "context_block num_str i r = utf16 ''[#'' @ ?w @ row_content r"
    by (simp add: context_block_def marker_def)
  moreover have "0x5B \<notin> set ?w"
    using show_nat_free [of "i + 1"] toFixed3_free [OF assms(1), of "score_of r"]
    by (simp add: utf16_simps)
  ultimately show ?thesis
    using assms(2) by blast
qed

lemma markers_of_context:
  assumes "\<forall>x. 0x5B \<notin> set (num_str x)"
    and "\<forall>r\<in>set rows. \<not> occurs_in (utf16 ''[#'') (row_content r)"
  shows "hd (pieces (context_of num_str rows)) = []"
    and "length (markers_in (context_of num_str rows)) = length rows"
    and "i < length rows \<Longrightarrow>
           markers_in (context_of num_str rows) ! i
             = context_block num_str i (rows ! i) @ (if i + 1 < length rows then [0x0A, 0x0A] else [])"
proof -
  let ?bs = "context_blocks num_str rows"
  have len: "length ?bs = length rows"
    by (simp add: context_blocks_def)
  have good: "\<forall>b\<in>set ?bs. \<exists>w c. b = utf16 ''[#'' @ w @ c \<and> 0x5B \<notin> set w
                 \<and> \<not> occurs_in (utf16 ''[#'') c"
  proof
    fix b
    assume "b \<in> set ?bs"
    then obtain i where "i < length rows" and "b = context_block num_str i (rows ! i)"
      by (auto simp: context_blocks_def in_set_conv_nth nth_enumerate_eq)
    with assms(2) context_block_form [OF assms(1), of "rows ! i" i]
    show "\<exists>w c. b = utf16 ''[#'' @ w @ c \<and> 0x5B \<notin> set w \<and> \<not> occurs_in (utf16 ''[#'') c"
      by simp
  qed
  have p: "pieces (context_of num_str rows)
             = [] # (if rows = [] then []
                     else map (\<lambda>b. b @ [0x0A, 0x0A]) (butlast ?bs) @ [last ?bs])"
  proof (cases "rows = []")
    case True
    then show ?thesis
      by (simp add: context_of_def context_blocks_def)
  next
    case False
    with len have "?bs \<noteq> []"
      by auto
    from pieces_join [OF good this] False show ?thesis
      by (simp add: context_of_def)
  qed
  show "hd (pieces (context_of num_str rows)) = []"
    by (simp add: p)
  show "length (markers_in (context_of num_str rows)) = length rows"
    using len by (auto simp: p markers_in_def)
  show "markers_in (context_of num_str rows) ! i
          = context_block num_str i (rows ! i) @ (if i + 1 < length rows then [0x0A, 0x0A] else [])"
    if "i < length rows"
  proof -
    from that have "rows \<noteq> []" and i: "i < length ?bs"
      using len by auto
    then have "markers_in (context_of num_str rows) ! i
                 = ?bs ! i @ (if i + 1 < length ?bs then [0x0A, 0x0A] else [])"
      by (simp add: p markers_in_def nth_joined)
    with that show ?thesis
      by (simp add: len) (simp add: context_blocks_def nth_enumerate_eq)
  qed
qed

text \<open>
  C3, as the code has it. Let \<open>rows\<close> be the rows the handler puts into the context, the first
  \<open>min(length, topK)\<close> search results, and \<open>n\<close> their number (at most \<open>topK\<close>). When the text
  \<open>[#\<close> occurs in no passage content (and the platform renders no number with a \<open>[\<close>), the
  rendered context, cut at the occurrences of \<open>[#\<close>, starts with a marker and has exactly \<open>n\<close>
  pieces; their labels are 1 to \<open>n\<close> in this order, without gaps and without duplicates, and
  piece \<open>i\<close> (counted from 0) is the marker \<open>[#i+1\<close> with the score and the content of row
  \<open>i\<close>, followed by a blank line if it is not the last. The citations are \<open>n\<close>, with the
  indices 1 to \<open>n\<close> in this order, and the citation at position \<open>i\<close> is built from row \<open>i\<close>,
  the row of piece \<open>i\<close>.
\<close>

theorem citation_index_contract:
  fixes hits :: "KBRow list" and topK :: jsnum and num_str :: "real \<Rightarrow> jsstring"
  defines "rows \<equiv> topForLLM hits topK"
  assumes "\<forall>r\<in>set rows. \<not> occurs_in (utf16 ''[#'') (row_content r)"
    and "\<forall>x. 0x5B \<notin> set (num_str x)"
  shows "hd (pieces (context_of num_str rows)) = []
       \<and> length (markers_in (context_of num_str rows)) = length rows
       \<and> map marker_label (markers_in (context_of num_str rows))
           = map (\<lambda>i. show_nat (i + 1)) [0..<length rows]
       \<and> distinct (map marker_label (markers_in (context_of num_str rows)))
       \<and> (\<forall>i<length rows.
             markers_in (context_of num_str rows) ! i
               = utf16 ''[#'' @ show_nat (i + 1) @ utf16 '' | score=''
                   @ toFixed3 num_str (score_of (rows ! i)) @ utf16 '']'' @ [0x0A]
                   @ row_content (rows ! i) @ (if i + 1 < length rows then [0x0A, 0x0A] else []))
       \<and> length (citations_of mark rows) = length rows
       \<and> length rows \<le> length hits
       \<and> (\<forall>k. topK = Num k \<and> 0 \<le> k \<longrightarrow> real (length rows) \<le> k)
       \<and> map cit_index (citations_of mark rows) = [1..<length rows + 1]
       \<and> (\<forall>i<length rows.
             citations_of mark rows ! i = citation_of mark i (rows ! i)
           \<and> cit_index (citations_of mark rows ! i) = i + 1
           \<and> cit_snippet (citations_of mark rows ! i)
               = take 240 (row_content (rows ! i))
                   @ (if length (row_content (rows ! i)) > 240 then mark else []))"
proof -
  let ?ms = "markers_in (context_of num_str rows)"
  note m = markers_of_context [OF assms(3,2)]
  have nth: "?ms ! i = utf16 ''[#'' @ show_nat (i + 1) @ utf16 '' | score=''
                   @ toFixed3 num_str (score_of (rows ! i)) @ utf16 '']'' @ [0x0A]
                   @ row_content (rows ! i) @ (if i + 1 < length rows then [0x0A, 0x0A] else [])"
    if "i < length rows" for i
    using m(3) [OF that] by (simp add: context_block_def marker_def)
  have labels: "map marker_label ?ms = map (\<lambda>i. show_nat (i + 1)) [0..<length rows]"
  proof (rule nth_equalityI)
    show "length (map marker_label ?ms) = length (map (\<lambda>i. show_nat (i + 1)) [0..<length rows])"
      by (simp add: m(2))
    fix i
    assume "i < length (map marker_label ?ms)"
    then have i: "i < length rows"
      by (simp add: m(2))
    then show "map marker_label ?ms ! i = map (\<lambda>i. show_nat (i + 1)) [0..<length rows] ! i"
      by (simp add: m(2) nth [OF i] marker_label_block del: upt_Suc)
  qed
  have "inj (\<lambda>i. show_nat (i + 1))"
    by (auto simp: inj_def dest: show_nat_inj)
  then have dist: "distinct (map marker_label ?ms)"
    unfolding labels by (simp add: distinct_map inj_on_def inj_def)
  have idx: "map cit_index (citations_of mark rows) = [1..<length rows + 1]"
    by (rule nth_equalityI)
       (simp_all add: citations_of_def nth_enumerate_eq citation_of_def del: upt_Suc)
  have k: "\<forall>k. topK = Num k \<and> 0 \<le> k \<longrightarrow> real (length rows) \<le> k"
    using length_topForLLM_k by (auto simp: rows_def)
  have l: "length rows \<le> length hits"
    by (simp add: rows_def length_topForLLM)
  have cit: "\<forall>i<length rows.
             citations_of mark rows ! i = citation_of mark i (rows ! i)
           \<and> cit_index (citations_of mark rows ! i) = i + 1
           \<and> cit_snippet (citations_of mark rows ! i)
               = take 240 (row_content (rows ! i))
                   @ (if length (row_content (rows ! i)) > 240 then mark else [])"
    by (simp add: citations_of_def nth_enumerate_eq citation_of_def)
  have cl: "length (citations_of mark rows) = length rows"
    by (simp add: citations_of_def)
  from m(1,2) labels dist nth idx k l cit cl show ?thesis
    by (simp only: simp_thms) blast
qed

text \<open>
  Three search results with top-K 2: the rendered context holds the markers 1 and 2, and the
  two citations have the indices 1 and 2 and the snippets of the first two results.
\<close>

theorem citation_index_contract_witness:
  "context_of (number_to_string (deployment [] (Returns None) no_history))
       (topForLLM three_hits (Num 2))
     = utf16 ''[#1 | score=0.900]'' @ [0x0A] @ utf16 ''Hold the pairing button.'' @ [0x0A, 0x0A]
       @ utf16 ''[#2 | score=0.512]'' @ [0x0A] @ utf16 ''Replace the batteries.''
   \<and> map marker_label (markers_in (context_of (number_to_string (deployment [] (Returns None) no_history))
       (topForLLM three_hits (Num 2)))) = [utf16 ''1'', utf16 ''2'']
   \<and> map cit_index (citations_of ellipsis (topForLLM three_hits (Num 2))) = [1, 2]
   \<and> map cit_snippet (citations_of ellipsis (topForLLM three_hits (Num 2)))
     = [utf16 ''Hold the pairing button.'', utf16 ''Replace the batteries.'']"
proof -
  let ?ns = "number_to_string (deployment [] (Returns None) no_history)"
  have rows: "topForLLM three_hits (Num 2) = take 2 three_hits"
    by (simp add: topForLLM_def three_hits_def)
  have len: "length (topForLLM three_hits (Num 2)) = 2"
    by (simp only: rows) (simp add: three_hits_def)
  have fx: "toFixed3 ?ns (9 / 10) = utf16 ''0.900''" "toFixed3 ?ns (1281 / 2500) = utf16 ''0.512''"
    by (simp_all add: toFixed3_def show_nat_small digit_def utf16_simps)
  have rows2: "topForLLM three_hits (Num 2) = [three_hits ! 0, three_hits ! 1]"
    by (simp only: rows) (simp add: three_hits_def)
  have c: "\<forall>r\<in>set (topForLLM three_hits (Num 2)). \<not> occurs_in (utf16 ''[#'') (row_content r)"
    by (simp only: rows2) (simp add: three_hits_def utf16_simps)
  have n: "\<forall>x. 0x5B \<notin> set (?ns x)"
    by (simp add: deployment_def utf16_simps)
  note inst = citation_index_contract [OF c n, of ellipsis]
  have idx: "map cit_index (citations_of ellipsis (topForLLM three_hits (Num 2))) = [1, 2]"
    using inst by (simp add: len upt_rec)
  have lab: "map marker_label (markers_in (context_of ?ns (topForLLM three_hits (Num 2))))
               = [utf16 ''1'', utf16 ''2'']"
    using inst by (simp add: len upt_rec show_nat_small digit_def utf16_simps)
  have ctx: "context_of ?ns (topForLLM three_hits (Num 2))
     = utf16 ''[#1 | score=0.900]'' @ [0x0A] @ utf16 ''Hold the pairing button.'' @ [0x0A, 0x0A]
       @ utf16 ''[#2 | score=0.512]'' @ [0x0A] @ utf16 ''Replace the batteries.''"
    by (simp only: rows2)
       (simp add: context_of_def context_blocks_def context_block_def three_hits_def score_of_def
          fx marker_def show_nat_small digit_def utf16_simps)
  have snips: "map cit_snippet (citations_of ellipsis (topForLLM three_hits (Num 2)))
                 = [utf16 ''Hold the pairing button.'', utf16 ''Replace the batteries.'']"
    by (simp only: rows2)
       (simp add: citations_of_def citation_of_def three_hits_def utf16_simps)
  show ?thesis
    by (intro conjI) (rule ctx lab idx snips)+
qed

text \<open>
  C3 as stated fails: a single passage whose content holds a line that reads like a marker
  is rendered to the same text as two passages, and the rendered context of this one
  passage holds the markers 1 and 2, while there is one citation.
\<close>

theorem quoted_marker_counterexample:
  "topForLLM [quoting_row] (Num 10) = [quoting_row]
   \<and> context_of (\<lambda>x. utf16 ''1e+21'') [quoting_row]
       = context_of (\<lambda>x. utf16 ''1e+21'') [plain_row (utf16 ''a''), plain_row (utf16 ''b'')]
   \<and> map marker_label (markers_in (context_of (\<lambda>x. utf16 ''1e+21'') [quoting_row]))
       = [utf16 ''1'', utf16 ''2'']
   \<and> map cit_index (citations_of ellipsis [quoting_row]) = [1]"
proof -
  have ctx: "context_of (\<lambda>x. utf16 ''1e+21'') [quoting_row]
       = utf16 ''[#1 | score=0.000]'' @ [0x0A] @ utf16 ''a'' @ [0x0A, 0x0A]
         @ utf16 ''[#2 | score=0.000]'' @ [0x0A] @ utf16 ''b''"
    by (simp add: context_of_def context_blocks_def context_block_def quoting_row_def
          plain_row_def score_of_def toFixed3_def marker_def show_nat_small digit_def utf16_simps)
  have two: "context_of (\<lambda>x. utf16 ''1e+21'') [plain_row (utf16 ''a''), plain_row (utf16 ''b'')]
       = utf16 ''[#1 | score=0.000]'' @ [0x0A] @ utf16 ''a'' @ [0x0A, 0x0A]
         @ utf16 ''[#2 | score=0.000]'' @ [0x0A] @ utf16 ''b''"
    by (simp add: context_of_def context_blocks_def context_block_def
          plain_row_def score_of_def toFixed3_def marker_def show_nat_small digit_def utf16_simps)
  have lab: "map marker_label (markers_in (utf16 ''[#1 | score=0.000]'' @ [0x0A] @ utf16 ''a'' @ [0x0A, 0x0A]
         @ utf16 ''[#2 | score=0.000]'' @ [0x0A] @ utf16 ''b'')) = [utf16 ''1'', utf16 ''2'']"
    by (simp add: markers_in_def marker_label_def is_digit_def utf16_simps pieces_eval
          del: pieces.simps(2))
  have tp: "topForLLM [quoting_row] (Num 10) = [quoting_row]"
    by (simp add: topForLLM_def)
  have cit: "map cit_index (citations_of ellipsis [quoting_row]) = [1]"
    by (simp add: citations_of_def citation_of_def)
  from two have eq: "context_of (\<lambda>x. utf16 ''1e+21'') [quoting_row]
       = context_of (\<lambda>x. utf16 ''1e+21'') [plain_row (utf16 ''a''), plain_row (utf16 ''b'')]"
    by (simp only: ctx)
  from lab have lab': "map marker_label (markers_in (context_of (\<lambda>x. utf16 ''1e+21'') [quoting_row]))
       = [utf16 ''1'', utf16 ''2'']"
    by (simp only: ctx)
  show ?thesis
    by (intro conjI) (rule tp eq lab' cit)+
qed

section \<open>The history window\<close>

lemma fetch_history_store:
  assumes "0 < n"
  shows "fetch_history (deployment rows gen (session_store tbl)) (JString (utf16 (c # s))) (Num (real n))
           = ([History_call (JString (utf16 (c # s))) (Num (real n * 2))],
              history_query tbl (utf16 (c # s)) (2 * n))"
proof -
  have e: "real n * 2 = real (2 * n)"
    by simp
  have "session_store tbl (JString (utf16 (c # s))) (Num (real n * 2))
          = Returns \<lparr>hist_data = Some (history_query tbl (utf16 (c # s)) (2 * n)), hist_error = False\<rparr>"
    unfolding e session_store_def by (simp del: of_nat_mult)
  then show ?thesis
    using assms by (simp add: fetch_history_def deployment_def utf16_Cons)
qed

lemma history_query_five_exchanges: "history_query five_exchanges (utf16 ''s1'') 8
   = map (\<lambda>r. \<lparr>msg_role = cm_role r, msg_content = cm_content r\<rparr>) (map turn [1, 2, 3, 4, 5, 6, 7, 8])"
  by (simp add: history_query_def five_exchanges_def turn_def utf16_simps)
lemma most_recent_five_exchanges: "most_recent_turns five_exchanges (utf16 ''s1'') 4
   = map (\<lambda>r. \<lparr>msg_role = cm_role r, msg_content = cm_content r\<rparr>) (map turn [3, 4, 5, 6, 7, 8, 9, 10])"
  by (simp add: most_recent_turns_def five_exchanges_def turn_def utf16_simps)

lemma history_sent_append: "history_sent (xs @ ys) = history_sent xs @ history_sent ys"
  by (simp add: history_sent_def)

lemma history_sent_Cons:
  "history_sent (c # cs) = (case c of Completions_call t ms \<Rightarrow> butlast (tl ms) | _ \<Rightarrow> []) @ history_sent cs"
  by (simp add: history_sent_def)

lemma history_sent_Nil: "history_sent [] = []"
  by (simp add: history_sent_def)

lemma history_sent_store_turn: "history_sent (store_turn S sid q a) = []"
  by (simp add: store_turn_def history_sent_Cons history_sent_Nil split: outcome.split)

lemma history_sent_fetch: "history_sent (fst (fetch_history S sid maxH)) = []"
  by (simp add: fetch_history_def history_sent_Cons history_sent_Nil)

lemma messages_conv_history:
  "butlast (tl (messages_conv q ctx maxH h)) = (if length h > 0 then slice_last (times2 maxH) h else [])"
  by (simp add: messages_conv_def butlast_append)

lemma answer_stage_conv_history_sent:
  assumes "\<And>t m. chat_completions S t m = Returns content"
  shows "history_sent (fst (answer_stage_conv S q topK sid maxH hits)) =
          (let h = snd (fetch_history S sid maxH)
           in if length h > 0 then slice_last (times2 maxH) h else [])"
  using assms
  by (simp add: answer_stage_conv_def Let_def history_sent_append history_sent_Cons
        history_sent_store_turn history_sent_fetch messages_conv_history split: prod.split)
     (metis fst_conv history_sent_fetch snd_conv)

lemma serve_conv_history_sent:
  assumes "req_method req = ''POST''"
    and "get_field (body_of req) ''health'' \<noteq> Some (JBool True)"
    and "get_field (body_of req) ''query'' = Some (JString q)" and "q \<noteq> []"
    and "env_check S = None"
    and "embeddings S (normalizeLocal q) = Returns er" and "emb_embedding er = Some v"
    and "\<And>a. search_rpc S a = Returns rr" and "rpc_error rr = None"
    and "\<And>t m. chat_completions S t m = Returns content"
    and "topK_of (string_to_number S) (body_of req) = Returns topK"
    and "maxHistory_of (string_to_number S) (body_of req) = Returns maxH"
  shows "history_sent (fst (serve_conv S req)) =
          (let h = snd (fetch_history S (sessionId_of (randomUUID S) (body_of req)) maxH)
           in if length h > 0 then slice_last (times2 maxH) h else [])"
proof -
  have "history_sent (fst (serve_conv S req)) =
          history_sent (fst (answer_stage_conv S q topK
             (sessionId_of (randomUUID S) (body_of req)) maxH
             (case rpc_data rr of Some rows \<Rightarrow> rows | None \<Rightarrow> [])))"
    using assms(1-9,11,12)
    by (simp add: serve_conv_def retrieval_stage_def Let_def history_sent_Cons split: prod.split)
  then show ?thesis
    by (simp only: answer_stage_conv_history_sent [OF assms(10)])
qed

text \<open>A failing history fetch leaves the history empty and does not fail the request.\<close>

lemma fetch_history_failure:
  assumes "select_chat_messages S sid (times2 maxH) = Throws e
           \<or> select_chat_messages S sid (times2 maxH) = Returns \<lparr>hist_data = d, hist_error = True\<rparr>"
  shows "snd (fetch_history S sid maxH) = []"
  using assms by (auto simp: fetch_history_def split: option.split)

text \<open>
  C6. The history fetch orders the rows of the session by ascending timestamp and limits the
  result to \<open>2 * max_history\<close> rows, so it returns the oldest rows of the session; the later
  \<open>slice\<close> keeps all of them. For a session of five stored exchanges and the default
  \<open>max_history = 4\<close>, the turns sent to the generation service are the turns 1 to 8, while
  the four most recent pairs are the turns 3 to 10.
\<close>

theorem history_window_is_oldest:
  "history_sent (fst (serve_conv
       (deployment [] (Returns (Some (utf16 ''Sure.''))) (session_store five_exchanges))
       (post [(''query'', JString (utf16 ''and now?'')), (''session_id'', JString (utf16 ''s1''))])))
     = map (\<lambda>r. \<lparr>msg_role = cm_role r, msg_content = cm_content r\<rparr>) (map turn [1, 2, 3, 4, 5, 6, 7, 8])
   \<and> most_recent_turns five_exchanges (utf16 ''s1'') 4
     = map (\<lambda>r. \<lparr>msg_role = cm_role r, msg_content = cm_content r\<rparr>) (map turn [3, 4, 5, 6, 7, 8, 9, 10])"
proof -
  let ?S = "deployment [] (Returns (Some (utf16 ''Sure.''))) (session_store five_exchanges)"
  let ?r = "post [(''query'', JString (utf16 ''and now?'')), (''session_id'', JString (utf16 ''s1''))]"
  have sid: "sessionId_of (randomUUID ?S) (body_of ?r) = JString (utf16 ''s1'')"
    by (simp add: sessionId_of_def post_def body_of_def utf16_simps)
  have mh: "maxHistory_of (string_to_number ?S) (body_of ?r) = Returns (Num 4)"
    by (simp add: maxHistory_of_def post_def body_of_def utf16_simps)
  have tk: "topK_of (string_to_number ?S) (body_of ?r) = Returns (Num 10)"
    by (rule topK_absent) (simp add: post_def body_of_def utf16_simps)
  have fh: "snd (fetch_history ?S (JString (utf16 ''s1'')) (Num 4))
              = history_query five_exchanges (utf16 ''s1'') 8"
    using fetch_history_store [of 4 "[]" "Returns (Some (utf16 ''Sure.''))" five_exchanges "CHR ''s''" "''1''"]
    by (simp add: utf16_simps)
  have "history_sent (fst (serve_conv ?S ?r)) =
          (let h = snd (fetch_history ?S (sessionId_of (randomUUID ?S) (body_of ?r)) (Num 4))
           in if length h > 0 then slice_last (times2 (Num 4)) h else [])"
    by (rule serve_conv_history_sent [where q = "utf16 ''and now?''" and v = "[0]"
           and er = "\<lparr>emb_embedding = Some [0], emb_error = None, emb_status = 200\<rparr>"
           and rr = "\<lparr>rpc_data = Some [], rpc_error = None\<rparr>" and topK = "Num 10"])
       (simp_all add: tk mh, simp_all add: post_def body_of_def utf16_simps deployment_def env_check_def)
  then have "history_sent (fst (serve_conv ?S ?r)) = history_query five_exchanges (utf16 ''s1'') 8"
    by (simp only: sid fh Let_def) (simp add: history_query_five_exchanges)
  then show ?thesis
    by (simp only: history_query_five_exchanges most_recent_five_exchanges)
qed


section \<open>Ordering with a limit\<close>

lemma length_unselected_ge: "length rows \<le> length (unselected rows out) + length out"
  unfolding unselected_def
proof (induction out arbitrary: rows)
  case Nil
  then show ?case by simp
next
  case (Cons x out)
  have "length rows \<le> Suc (length (remove1 x rows))"
    by (simp add: length_remove1) arith
  also have "\<dots> \<le> Suc (length (fold remove1 out (remove1 x rows)) + length out)"
    using Cons.IH [of "remove1 x rows"] by simp
  finally show ?case by simp
qed

lemma unselected_mset:
  "length (unselected rows out) + length out = length rows \<Longrightarrow>
     mset out \<subseteq># mset rows \<and> mset (unselected rows out) = mset rows - mset out"
proof (induction out arbitrary: rows)
  case Nil
  then show ?case by (simp add: unselected_def)
next
  case (Cons x out)
  have u: "unselected rows (x # out) = unselected (remove1 x rows) out"
    by (simp add: unselected_def)
  from Cons.prems have eq: "length (unselected (remove1 x rows) out) + length out + 1 = length rows"
    by (simp add: u)
  have ge: "length (remove1 x rows) \<le> length (unselected (remove1 x rows) out) + length out"
    by (rule length_unselected_ge)
  have mem: "x \<in> set rows"
  proof (rule ccontr)
    assume "x \<notin> set rows"
    then have "remove1 x rows = rows" by (simp add: remove1_idem)
    with ge eq show False by simp
  qed
  then have "length (remove1 x rows) + 1 = length rows"
    by (simp add: length_remove1) (metis length_pos_if_in_set Suc_pred)
  with eq ge have "length (unselected (remove1 x rows) out) + length out = length (remove1 x rows)"
    by simp
  from Cons.IH [OF this]
  have sub: "mset out \<subseteq># mset (remove1 x rows)"
    and rest: "mset (unselected (remove1 x rows) out) = mset (remove1 x rows) - mset out"
    by simp_all
  from sub mem have "add_mset x (mset out) \<subseteq># mset rows"
    by (metis insert_DiffM mset_remove1 mset_subset_eq_add_mset_cancel set_mset_mset)
  moreover from rest have "mset (unselected rows (x # out)) = mset rows - add_mset x (mset out)"
    by (simp add: u)
  ultimately show ?case by simp
qed

lemma order_by_limit_sorted: "order_by_limit key n rows out \<Longrightarrow> sorted (map key out)"
  by (simp add: order_by_limit_def)

lemma order_by_limit_length: "order_by_limit key n rows out \<Longrightarrow> length out = min n (length rows)"
  by (simp add: order_by_limit_def)

lemma order_by_limit_mset: "order_by_limit key n rows out \<Longrightarrow> mset out \<subseteq># mset rows"
  by (simp add: order_by_limit_def unselected_mset)

lemma order_by_limit_set: "order_by_limit key n rows out \<Longrightarrow> set out \<subseteq> set rows"
  by (metis order_by_limit_mset set_mset_mono set_mset_mset)

lemma order_by_limit_rest:
  assumes "order_by_limit key n rows out" and "x \<in> set out" and "y \<in># mset rows - mset out"
  shows "key x \<le> key y"
proof -
  from assms(1) have "mset (unselected rows out) = mset rows - mset out"
    by (simp add: order_by_limit_def unselected_mset)
  with assms(3) have "y \<in> set (unselected rows out)"
    by (metis set_mset_mset)
  with assms(1,2) show ?thesis
    by (auto simp: order_by_limit_def list_all_iff)
qed

lemma unselected_of_sub:
  "mset out \<subseteq># mset rows \<Longrightarrow> length (unselected rows out) + length out = length rows"
proof (induction out arbitrary: rows)
  case Nil
  then show ?case by (simp add: unselected_def)
next
  case (Cons x out)
  from Cons.prems have mem: "x \<in> set rows"
    by (metis mset_subset_eq_insertD set_mset_mset mset.simps(2))
  from Cons.prems have "mset out \<subseteq># mset (remove1 x rows)"
    by (simp add: insert_subset_eq_iff)
  from Cons.IH [OF this] mem show ?case
    by (simp add: unselected_def length_remove1) (metis length_pos_if_in_set Suc_pred add_Suc_right)
qed

text \<open>The relation is the one of the informal reading: a prefix of an ordered permutation.\<close>

lemma order_by_limit_iff:
  "order_by_limit key n rows out \<longleftrightarrow>
     (\<exists>ys. mset ys = mset rows \<and> sorted (map key ys) \<and> out = take n ys)"
proof
  assume a: "order_by_limit key n rows out"
  let ?rest = "sort_key key (unselected rows out)"
  let ?ys = "out @ ?rest"
  from a have sub: "mset out \<subseteq># mset rows"
    and rest: "mset (unselected rows out) = mset rows - mset out"
    by (simp_all add: order_by_limit_def unselected_mset)
  have 1: "mset ?ys = mset rows"
    using sub rest by simp
  have "\<forall>x\<in>set out. \<forall>y\<in>set (unselected rows out). key x \<le> key y"
    using a by (auto simp: order_by_limit_def list_all_iff)
  then have 2: "sorted (map key ?ys)"
    using a by (auto simp: sorted_append order_by_limit_def)
  have 3: "out = take n ?ys"
  proof (cases "n \<le> length rows")
    case True
    with a have "length out = n" by (simp add: order_by_limit_def)
    then show ?thesis by simp
  next
    case False
    with a have l: "length out = length rows" by (simp add: order_by_limit_def)
    from a have "length (unselected rows out) + length out = length rows"
      by (simp add: order_by_limit_def)
    with l have "unselected rows out = []" by simp
    with l False show ?thesis by simp
  qed
  from 1 2 3 show "\<exists>ys. mset ys = mset rows \<and> sorted (map key ys) \<and> out = take n ys"
    by blast
next
  assume "\<exists>ys. mset ys = mset rows \<and> sorted (map key ys) \<and> out = take n ys"
  then obtain ys where m: "mset ys = mset rows" and s: "sorted (map key ys)" and o: "out = take n ys"
    by blast
  have len: "length ys = length rows"
    using m by (metis size_mset)
  have sub: "mset out \<subseteq># mset rows"
    unfolding o using m by (metis append_take_drop_id mset_append mset_subset_eq_add_left)
  have l: "length (unselected rows out) + length out = length rows"
    by (rule unselected_of_sub [OF sub])
  have "mset (unselected rows out) = mset rows - mset out"
    using unselected_mset [OF l] by simp
  also have "\<dots> = mset (drop n ys)"
    unfolding o using m by (metis add_diff_cancel_left' append_take_drop_id mset_append)
  finally have r: "set (unselected rows out) = set (drop n ys)"
    by (metis set_mset_mset)
  have "sorted (map key (take n ys @ drop n ys))"
    using s by simp
  then have "\<forall>x\<in>set (take n ys). \<forall>y\<in>set (drop n ys). key x \<le> key y"
    unfolding map_append sorted_append by auto
  moreover have "sorted (map key (take n ys))"
    using s by (metis sorted_wrt_take take_map)
  ultimately show "order_by_limit key n rows out"
    using l r len by (simp add: order_by_limit_def o list_all_iff)
qed

text \<open>With pairwise different keys the result is determined.\<close>

lemma order_by_limit_unique:
  assumes "distinct (map key rows)" and "order_by_limit key n rows out"
  shows "out = take n (sort_key key rows)"
proof -
  from assms(2) obtain ys where m: "mset ys = mset rows" and s: "sorted (map key ys)"
    and o: "out = take n ys"
    by (auto simp: order_by_limit_iff)
  have sets: "set ys = set rows"
    using m by (rule mset_eq_setD)
  have d1: "distinct (map key ys)"
  proof -
    have "mset (map key ys) = mset (map key rows)"
      using m by (metis mset_map)
    then show ?thesis
      using assms(1) by (metis distinct_count_atmost_1 set_mset_mset)
  qed
  have d2: "distinct (map key (sort_key key rows))"
  proof -
    have "mset (map key (sort_key key rows)) = mset (map key rows)"
      by (metis mset_map mset_sort)
    then show ?thesis
      using assms(1) by (metis distinct_count_atmost_1 set_mset_mset)
  qed
  have "set (map key ys) = set (map key (sort_key key rows))"
    using sets by simp
  with s d1 d2 have "map key ys = map key (sort_key key rows)"
    by (intro sorted_distinct_set_unique) (simp_all add: sorted_sort_key)
  moreover have "inj_on key (set ys \<union> set (sort_key key rows))"
    using assms(1) sets by (simp add: distinct_map)
  ultimately have "ys = sort_key key rows"
    by (rule map_inj_on)
  with o show ?thesis by simp
qed

lemma desc_sorted: "sorted (map (\<lambda>r. - f r) xs) \<longleftrightarrow> sorted_wrt (\<lambda>a b. (f b :: real) \<le> f a) xs"
  by (induction xs) auto

section \<open>The order of the fused results\<close>

text \<open>
  C2, as the code has it. The result of \<open>search_kb_hybrid\<close> is in non-increasing order of the
  fused score and holds \<open>k\<close> rows of the fused list (all of them if there are fewer), namely
  rows that no row left out beats. The query orders by the score alone: when the fused scores
  are pairwise different the result is determined, and rows with equal scores may come in
  either order.
\<close>

theorem fused_results_ordered:
  assumes "search_kb_hybrid kb w_s w_l w_t k semc lexc tric out"
  shows "sorted_wrt (\<lambda>a b. f_score a \<ge> f_score b) out
       \<and> length out = min k (length (fused w_s w_l w_t kb semc lexc tric))
       \<and> mset out \<subseteq># mset (fused w_s w_l w_t kb semc lexc tric)
       \<and> (\<forall>r\<in>set out. \<forall>u\<in>#mset (fused w_s w_l w_t kb semc lexc tric) - mset out.
             f_score u \<le> f_score r)
       \<and> (distinct (map f_score (fused w_s w_l w_t kb semc lexc tric)) \<longrightarrow>
             out = take k (sort_key (\<lambda>r. - f_score r) (fused w_s w_l w_t kb semc lexc tric)))"
proof -
  let ?rows = "fused w_s w_l w_t kb semc lexc tric"
  from assms have o: "order_by_limit (\<lambda>r. - f_score r) k ?rows out"
    by (simp add: search_kb_hybrid_def)
  have "sorted_wrt (\<lambda>a b. f_score a \<ge> f_score b) out"
    using order_by_limit_sorted [OF o] by (simp add: desc_sorted)
  moreover have "length out = min k (length ?rows)"
    by (rule order_by_limit_length [OF o])
  moreover have "mset out \<subseteq># mset ?rows"
    by (rule order_by_limit_mset [OF o])
  moreover have "\<forall>r\<in>set out. \<forall>u\<in>#mset ?rows - mset out. f_score u \<le> f_score r"
    using order_by_limit_rest [OF o] by fastforce
  moreover have "out = take k (sort_key (\<lambda>r. - f_score r) ?rows)" if "distinct (map f_score ?rows)"
  proof -
    from that have "distinct (map (\<lambda>r. - f_score r) ?rows)"
      by (simp add: distinct_map inj_on_def)
    then show ?thesis
      by (rule order_by_limit_unique [OF _ o])
  qed
  ultimately show ?thesis by blast
qed


theorem fused_results_ordered_witness:
  "search_kb_hybrid eleven_away (55 / 100) (35 / 100) (1 / 10) 1 (take 10 eleven_away) [] []
     [\<lparr>f_id = 11, f_content = [], f_score = 0, sem_score = 0, lex_score = 0, tri_score = 0\<rparr>]
   \<and> distinct (map f_score (fused (55 / 100) (35 / 100) (1 / 10) eleven_away (take 10 eleven_away) [] []))
   \<and> take 1 (sort_key (\<lambda>r. - f_score r)
         (fused (55 / 100) (35 / 100) (1 / 10) eleven_away (take 10 eleven_away) [] []))
       = [\<lparr>f_id = 11, f_content = [], f_score = 0, sem_score = 0, lex_score = 0, tri_score = 0\<rparr>]"
proof -
  have run: "search_kb_hybrid eleven_away (55 / 100) (35 / 100) (1 / 10) 1 (take 10 eleven_away) [] []
     [\<lparr>f_id = 11, f_content = [], f_score = 0, sem_score = 0, lex_score = 0, tri_score = 0\<rparr>]"
    by (simp add: search_kb_hybrid_def order_by_limit_def index_scan_limit_def unselected_def fused_def
          left_join_score_def eleven_away_def away_def)
  have d: "distinct (map f_score (fused (55 / 100) (35 / 100) (1 / 10) eleven_away (take 10 eleven_away) [] []))"
    by (simp add: fused_def left_join_score_def eleven_away_def away_def)
  from fused_results_ordered [OF run] d run show ?thesis
    by simp
qed

text \<open>
  C2 as stated fails: two passages with the same fused score may come with the larger id
  first, and both orders are results of the same query on the same data.
\<close>

theorem tie_break_counterexample:
  "search_kb_hybrid [twin 1, twin 2] (55 / 100) (35 / 100) (1 / 10) 10 [twin 1, twin 2] [] []
     [twin_row 2, twin_row 1]
   \<and> search_kb_hybrid [twin 1, twin 2] (55 / 100) (35 / 100) (1 / 10) 10 [twin 1, twin 2] [] []
     [twin_row 1, twin_row 2]
   \<and> \<not> fusion_order_spec [twin_row 2, twin_row 1]"
  by (simp add: search_kb_hybrid_def order_by_limit_def index_scan_limit_def unselected_def fused_def
        left_join_score_def twin_def twin_row_def fusion_order_spec_def)


section \<open>The passages of the fused results\<close>

lemma in_left_join_score:
  "s \<in> set (left_join_score c cte val) \<Longrightarrow> chunk_id c \<notin> chunk_id ` set cte \<Longrightarrow> s = 0"
proof -
  assume a: "s \<in> set (left_join_score c cte val)" and b: "chunk_id c \<notin> chunk_id ` set cte"
  from b have "filter (\<lambda>x. chunk_id x = chunk_id c) cte = []"
    by (auto simp: filter_empty_conv image_iff)
  with a show ?thesis by (simp add: left_join_score_def)
qed

lemma in_fused:
  assumes "r \<in> set (fused w_s w_l w_t kb semc lexc tric)"
  shows "\<exists>c\<in>set kb. f_id r = chunk_id c \<and> f_content r = chunk_content c
           \<and> f_score r = w_s * sem_score r + w_l * lex_score r + w_t * tri_score r
           \<and> sem_score r \<in> set (left_join_score c semc (\<lambda>x. 1 - distance x))
           \<and> lex_score r \<in> set (left_join_score c lexc ts_rank)
           \<and> tri_score r \<in> set (left_join_score c tric (\<lambda>x. max (similarity x) 0))"
  using assms by (auto simp: fused_def)


lemma index_scan_limit_set: "index_scan_limit key n rows out \<Longrightarrow> set out \<subseteq> set rows"
  by (metis index_scan_limit_def unselected_mset set_mset_mono set_mset_mset)

lemma order_by_limit_index_scan: "order_by_limit key n rows out \<Longrightarrow> index_scan_limit key n rows out"
  by (simp add: order_by_limit_def index_scan_limit_def)

text \<open>Every row of \<open>kb_chunks\<close> has a row in the fused list, with the score 0 when no signal surfaced it.\<close>

lemma left_join_score_nonempty: "left_join_score c cte val \<noteq> []"
  by (simp add: left_join_score_def split: list.split)

lemma left_join_score_unsurfaced:
  "chunk_id c \<notin> chunk_id ` set cte \<Longrightarrow> left_join_score c cte val = [0]"
proof -
  assume "chunk_id c \<notin> chunk_id ` set cte"
  then have "filter (\<lambda>x. chunk_id x = chunk_id c) cte = []"
    by (auto simp: filter_empty_conv image_iff)
  then show ?thesis
    by (simp add: left_join_score_def)
qed

lemma kb_row_in_fused:
  assumes "c \<in> set kb"
  shows "\<exists>r\<in>set (fused w_s w_l w_t kb semc lexc tric).
           f_id r = chunk_id c \<and> f_content r = chunk_content c"
proof -
  obtain s where s: "s \<in> set (left_join_score c semc (\<lambda>x. 1 - distance x))"
    using left_join_score_nonempty [of c semc] by (meson last_in_set)
  obtain l where l: "l \<in> set (left_join_score c lexc ts_rank)"
    using left_join_score_nonempty [of c lexc] by (meson last_in_set)
  obtain t where t: "t \<in> set (left_join_score c tric (\<lambda>x. max (similarity x) 0))"
    using left_join_score_nonempty [of c tric] by (meson last_in_set)
  let ?r = "\<lparr>f_id = chunk_id c, f_content = chunk_content c,
             f_score = w_s * s + w_l * l + w_t * t,
             sem_score = s, lex_score = l, tri_score = t\<rparr>"
  from assms s l t have "?r \<in> set (fused w_s w_l w_t kb semc lexc tric)"
    by (auto simp: fused_def)
  then show ?thesis
    by (intro bexI [of _ ?r]) simp_all
qed

lemma unsurfaced_in_fused:
  assumes "c \<in> set kb" and "chunk_id c \<notin> surfaced semc lexc tric"
  shows "\<lparr>f_id = chunk_id c, f_content = chunk_content c, f_score = 0,
          sem_score = 0, lex_score = 0, tri_score = 0\<rparr>
           \<in> set (fused w_s w_l w_t kb semc lexc tric)"
proof -
  from assms(2) have "left_join_score c semc (\<lambda>x. 1 - distance x) = [0]"
    and "left_join_score c lexc ts_rank = [0]"
    and "left_join_score c tric (\<lambda>x. max (similarity x) 0) = [0]"
    by (auto simp: surfaced_def intro!: left_join_score_unsurfaced)
  with assms(1) show ?thesis
    by (force simp: fused_def)
qed

text \<open>A row of the table that is not in the result lost against every row of a full result.\<close>

lemma order_by_limit_left_out:
  assumes "order_by_limit key n rows out" and "y \<in> set rows" and "y \<notin> set out"
  shows "length out = n \<and> (\<forall>x\<in>set out. key x \<le> key y)"
proof -
  from assms(2,3) have y: "y \<in># mset rows - mset out"
    by (metis count_eq_zero_iff in_diff_count not_gr_zero set_mset_mset count_greater_zero_iff)
  have sub: "mset out \<subseteq># mset rows"
    by (rule order_by_limit_mset [OF assms(1)])
  have "length out \<noteq> length rows"
  proof
    assume "length out = length rows"
    then have "size (mset out) = size (mset rows)"
      by simp
    with sub have "mset out = mset rows"
      using mset_subset_size subset_mset.less_le by fastforce
    with assms(2,3) show False
      by (metis set_mset_mset)
  qed
  moreover have "length out = min n (length rows)"
    by (rule order_by_limit_length [OF assms(1)])
  ultimately have "length out = n"
    by (simp add: min_def split: if_splits)
  moreover have "\<forall>x\<in>set out. key x \<le> key y"
    using order_by_limit_rest [OF assms(1) _ y] by blast
  ultimately show ?thesis by blast
qed

text \<open>
  C7, as the code has it. The candidates of the three searches are rows of \<open>kb_chunks\<close>. The
  fused list is built from all rows of \<open>kb_chunks\<close>, not from the union of the candidates:
  every row of the table has a row in the fused list, and a passage that no signal surfaced
  is there with the fused score 0. The result is taken from the fused list, so such a
  passage competes for it: it is in the result unless the result is full, with \<open>k\<close> rows of a
  score of at least 0. Every row of the result comes from a row of \<open>kb_chunks\<close>; its score is
  the weighted sum of its three signal scores, and a signal that did not surface the passage
  contributes 0.
\<close>

theorem fused_output_rows:
  assumes "search_kb_hybrid kb w_s w_l w_t k semc lexc tric out"
  shows "set semc \<subseteq> set kb \<and> set lexc \<subseteq> set kb \<and> set tric \<subseteq> set kb
       \<and> (\<forall>c\<in>set kb. \<exists>r\<in>set (fused w_s w_l w_t kb semc lexc tric).
              f_id r = chunk_id c \<and> f_content r = chunk_content c)
       \<and> (\<forall>c\<in>set kb. chunk_id c \<notin> surfaced semc lexc tric \<longrightarrow>
              \<lparr>f_id = chunk_id c, f_content = chunk_content c, f_score = 0,
               sem_score = 0, lex_score = 0, tri_score = 0\<rparr>
                \<in> set (fused w_s w_l w_t kb semc lexc tric)
              \<and> (\<lparr>f_id = chunk_id c, f_content = chunk_content c, f_score = 0,
                   sem_score = 0, lex_score = 0, tri_score = 0\<rparr> \<in> set out
                  \<or> length out = k \<and> (\<forall>r\<in>set out. 0 \<le> f_score r)))
       \<and> set out \<subseteq> set (fused w_s w_l w_t kb semc lexc tric)
       \<and> length out = min k (length (fused w_s w_l w_t kb semc lexc tric))
       \<and> (\<forall>r\<in>set out. \<exists>c\<in>set kb. f_id r = chunk_id c \<and> f_content r = chunk_content c
             \<and> f_score r = w_s * sem_score r + w_l * lex_score r + w_t * tri_score r
             \<and> (f_id r \<notin> chunk_id ` set semc \<longrightarrow> sem_score r = 0)
             \<and> (f_id r \<notin> chunk_id ` set lexc \<longrightarrow> lex_score r = 0)
             \<and> (f_id r \<notin> chunk_id ` set tric \<longrightarrow> tri_score r = 0)
             \<and> (f_id r \<notin> surfaced semc lexc tric \<longrightarrow> f_score r = 0))"
proof -
  let ?fused = "fused w_s w_l w_t kb semc lexc tric"
  from assms have s: "set semc \<subseteq> set kb" and l: "set lexc \<subseteq> set (filter ts_match kb)"
    and t: "set tric \<subseteq> set (filter trgm_match kb)"
    and ob: "order_by_limit (\<lambda>r. - f_score r) k ?fused out"
    unfolding search_kb_hybrid_def
    by (blast dest: order_by_limit_set index_scan_limit_set)+
  have o: "set out \<subseteq> set ?fused"
    by (rule order_by_limit_set [OF ob])
  have len: "length out = min k (length ?fused)"
    by (rule order_by_limit_length [OF ob])
  have all: "\<forall>c\<in>set kb. \<exists>r\<in>set ?fused. f_id r = chunk_id c \<and> f_content r = chunk_content c"
    using kb_row_in_fused by blast
  have un: "\<lparr>f_id = chunk_id c, f_content = chunk_content c, f_score = 0,
              sem_score = 0, lex_score = 0, tri_score = 0\<rparr> \<in> set ?fused
            \<and> (\<lparr>f_id = chunk_id c, f_content = chunk_content c, f_score = 0,
                 sem_score = 0, lex_score = 0, tri_score = 0\<rparr> \<in> set out
                \<or> length out = k \<and> (\<forall>r\<in>set out. 0 \<le> f_score r))"
    if c: "c \<in> set kb" "chunk_id c \<notin> surfaced semc lexc tric" for c
  proof -
    let ?z = "\<lparr>f_id = chunk_id c, f_content = chunk_content c, f_score = 0,
               sem_score = 0, lex_score = 0, tri_score = 0\<rparr>"
    have z: "?z \<in> set ?fused"
      by (rule unsurfaced_in_fused [OF c])
    show ?thesis
    proof (cases "?z \<in> set out")
      case True
      with z show ?thesis by blast
    next
      case False
      from order_by_limit_left_out [OF ob z False] z show ?thesis
        by simp
    qed
  qed
  have res: "\<exists>c\<in>set kb. f_id r = chunk_id c \<and> f_content r = chunk_content c
             \<and> f_score r = w_s * sem_score r + w_l * lex_score r + w_t * tri_score r
             \<and> (f_id r \<notin> chunk_id ` set semc \<longrightarrow> sem_score r = 0)
             \<and> (f_id r \<notin> chunk_id ` set lexc \<longrightarrow> lex_score r = 0)
             \<and> (f_id r \<notin> chunk_id ` set tric \<longrightarrow> tri_score r = 0)
             \<and> (f_id r \<notin> surfaced semc lexc tric \<longrightarrow> f_score r = 0)"
    if r: "r \<in> set out" for r
  proof -
    from o r have "r \<in> set ?fused"
      by blast
    from in_fused [OF this] obtain c where c: "c \<in> set kb" "f_id r = chunk_id c"
      "f_content r = chunk_content c"
      "f_score r = w_s * sem_score r + w_l * lex_score r + w_t * tri_score r"
      "sem_score r \<in> set (left_join_score c semc (\<lambda>x. 1 - distance x))"
      "lex_score r \<in> set (left_join_score c lexc ts_rank)"
      "tri_score r \<in> set (left_join_score c tric (\<lambda>x. max (similarity x) 0))"
      by blast
    have 1: "f_id r \<notin> chunk_id ` set semc \<longrightarrow> sem_score r = 0"
      using in_left_join_score [OF c(5)] c(2) by simp
    have 2: "f_id r \<notin> chunk_id ` set lexc \<longrightarrow> lex_score r = 0"
      using in_left_join_score [OF c(6)] c(2) by simp
    have 3: "f_id r \<notin> chunk_id ` set tric \<longrightarrow> tri_score r = 0"
      using in_left_join_score [OF c(7)] c(2) by simp
    have 4: "f_id r \<notin> surfaced semc lexc tric \<longrightarrow> f_score r = 0"
      using 1 2 3 c(4) by (auto simp: surfaced_def)
    from c(1-4) 1 2 3 4 show ?thesis
      by blast
  qed
  from s l t have "set semc \<subseteq> set kb \<and> set lexc \<subseteq> set kb \<and> set tric \<subseteq> set kb"
    by auto
  with all un o len res show ?thesis
    by blast
qed

text \<open>
  A run with \<open>k = 1\<close> on eleven passages near the query: the semantic search surfaces the ten
  nearest, the eleventh is in the fused list with the score 0 and loses against the nearest
  passage, which fills the result.
\<close>

theorem fused_output_rows_witness:
  "search_kb_hybrid eleven_near (55 / 100) (35 / 100) (1 / 10) 1 (take 10 eleven_near) [] []
     [\<lparr>f_id = 1, f_content = [], f_score = 55 / 100 * (99 / 100), sem_score = 99 / 100,
       lex_score = 0, tri_score = 0\<rparr>]
   \<and> near 11 \<in> set eleven_near
   \<and> chunk_id (near 11) \<notin> surfaced (take 10 eleven_near) [] []
   \<and> \<lparr>f_id = 11, f_content = [], f_score = 0, sem_score = 0, lex_score = 0, tri_score = 0\<rparr>
       \<in> set (fused (55 / 100) (35 / 100) (1 / 10) eleven_near (take 10 eleven_near) [] [])
   \<and> \<lparr>f_id = 11, f_content = [], f_score = 0, sem_score = 0, lex_score = 0, tri_score = 0\<rparr>
       \<notin> set [\<lparr>f_id = 1, f_content = [], f_score = 55 / 100 * (99 / 100), sem_score = 99 / 100,
                  lex_score = 0, tri_score = 0\<rparr>]"
proof -
  let ?out = "[\<lparr>f_id = 1, f_content = [], f_score = 55 / 100 * (99 / 100), sem_score = 99 / 100,
       lex_score = 0, tri_score = 0\<rparr>]"
  have run: "search_kb_hybrid eleven_near (55 / 100) (35 / 100) (1 / 10) 1 (take 10 eleven_near) [] [] ?out"
    by (simp add: search_kb_hybrid_def order_by_limit_def index_scan_limit_def unselected_def
          fused_def left_join_score_def eleven_near_def near_def)
  have c: "near 11 \<in> set eleven_near"
    by (simp add: eleven_near_def)
  have u: "chunk_id (near 11) \<notin> surfaced (take 10 eleven_near) [] []"
    by (simp add: surfaced_def eleven_near_def near_def)
  have z: "\<lparr>f_id = chunk_id (near 11), f_content = chunk_content (near 11), f_score = 0,
             sem_score = 0, lex_score = 0, tri_score = 0\<rparr>
           = \<lparr>f_id = 11, f_content = [], f_score = 0, sem_score = 0, lex_score = 0, tri_score = 0\<rparr>"
    by (simp add: near_def)
  note c2 = conjunct2
  note p5 = fused_output_rows [OF run, THEN c2, THEN c2, THEN c2, THEN c2, THEN conjunct1,
              rule_format, OF c u]
  from p5 have "\<lparr>f_id = 11, f_content = [], f_score = 0, sem_score = 0, lex_score = 0, tri_score = 0\<rparr>
       \<in> set (fused (55 / 100) (35 / 100) (1 / 10) eleven_near (take 10 eleven_near) [] [])"
    by (simp only: z)
  with run c u show ?thesis
    by simp
qed

text \<open>
  C7 as stated fails: with \<open>k = 1\<close> the semantic search surfaces the ten nearest of eleven
  passages, all with negative similarity; the eleventh, surfaced by no signal, has the fused
  score 0 and is the result.
\<close>

theorem unsurfaced_passage_counterexample:
  "search_kb_hybrid eleven_away (55 / 100) (35 / 100) (1 / 10) 1 (take 10 eleven_away) [] []
     [\<lparr>f_id = 11, f_content = [], f_score = 0, sem_score = 0, lex_score = 0, tri_score = 0\<rparr>]
   \<and> 11 \<notin> surfaced (take 10 eleven_away) [] []"
  by (simp add: search_kb_hybrid_def order_by_limit_def index_scan_limit_def unselected_def fused_def
        left_join_score_def eleven_away_def away_def surfaced_def)

section \<open>The two normalizers\<close>

text \<open>Evaluation of the matcher and of the two normalizers on a given text.\<close>

lemma lits_Nil: "lits [] = []"
  by (simp add: lits_def)

lemma lits_Cons: "lits (c # cs) = Lit (of_char c) # lits cs"
  by (simp add: lits_def)

lemma replace_all_Nil:
  "replace_all e pat rep prev [] = (case matches e pat prev [] of Some x \<Rightarrow> rep | None \<Rightarrow> [])"
  by (subst replace_all.simps) (simp split: option.split)

lemma replace_all_Cons:
  "replace_all e pat rep prev (c # cs) =
    (case matches e pat prev (c # cs) of
       Some (p', r) \<Rightarrow> if length r < Suc (length cs) then rep @ replace_all e pat rep p' r
                      else rep @ c # replace_all e pat rep (Some c) cs
     | None \<Rightarrow> c # replace_all e pat rep (Some c) cs)"
  by (subst replace_all.simps) (simp split: option.split)

lemmas regex_eval = replace_all_Nil replace_all_Cons lits_Nil lits_Cons at_boundary_def is_word_def

lemmas normalizeLocal_eval = normalizeLocal_def rewrite_js_def toLowerCase_def toLowerCase_cu_def
  normalize_NFKD_def nfkd_cu_def nfkd_table_def strip_accents_def trim_def control4_js_def
  foursight_js_def os3_js_def spaces_def Let_def regex_eval utf16_simps

lemmas normalize_text_eval = normalize_text_def pg_lower_def pg_trim_def unaccent_def
  regexp_replace_g_def spaces_def Let_def regex_eval utf16_simps

text \<open>
  C4: \<open>normalizeLocal\<close> of the edge function and \<open>normalize_text\<close> of the database do not
  produce the same output. For the query \<open>Control 4 app can't log in\<close> the edge function gives
  \<open>control4 app can't log in\<close>. The database function, with \<open>\b\<close> read as a word boundary,
  gives \<open>control4 app cannot login\<close>: it has the rewrites \<open>log in\<close> to \<open>login\<close> and \<open>can't\<close> to
  \<open>cannot\<close>, which the edge function lacks. With \<open>\b\<close> read as PostgreSQL reads it, as a
  backspace character, none of its rewrites applies and it gives \<open>control 4 app can't log in\<close>.
\<close>

theorem normalizers_differ:
  "normalizeLocal (utf16 ''Control 4 app can't log in'') = utf16 ''control4 app can't log in''
   \<and> normalize_text Word_boundary (Some (utf16 ''Control 4 app can't log in''))
       = utf16 ''control4 app cannot login''
   \<and> normalize_text Backspace (Some (utf16 ''Control 4 app can't log in''))
       = utf16 ''control 4 app can't log in''"
proof -
  have "normalizeLocal (utf16 ''Control 4 app can't log in'') = utf16 ''control4 app can't log in''"
    by (simp add: normalizeLocal_eval)
  moreover have "normalize_text Word_boundary (Some (utf16 ''Control 4 app can't log in''))
       = utf16 ''control4 app cannot login''"
    by (simp add: normalize_text_eval)
  moreover have "normalize_text Backspace (Some (utf16 ''Control 4 app can't log in''))
       = utf16 ''control 4 app can't log in''"
    by (simp add: normalize_text_eval)
  ultimately show ?thesis
    by (simp only: simp_thms)
qed

text \<open>
  C8 as stated fails for both normalizers. \<open>normalizeLocal\<close> lowercases before it decomposes:
  the trade mark sign U+2122 has no lowercase form and decomposes to \<open>TM\<close>, which a second
  application lowercases. \<open>normalize_text\<close> trims spaces before it collapses whitespace: a
  leading line feed becomes a leading space, which a second application trims; this holds for
  both readings of \<open>\b\<close>.
\<close>

theorem normalization_not_idempotent:
  "normalizeLocal [0x2122] = utf16 ''TM''
   \<and> normalizeLocal (normalizeLocal [0x2122]) = utf16 ''tm''
   \<and> normalize_text Word_boundary (Some [0x0A, 0x61]) = [0x20, 0x61]
   \<and> normalize_text Word_boundary (Some (normalize_text Word_boundary (Some [0x0A, 0x61]))) = [0x61]
   \<and> normalize_text Backspace (Some [0x0A, 0x61]) = [0x20, 0x61]
   \<and> normalize_text Backspace (Some (normalize_text Backspace (Some [0x0A, 0x61]))) = [0x61]"
proof -
  have a: "normalizeLocal [0x2122] = utf16 ''TM''"
    by (simp add: normalizeLocal_eval)
  have b: "normalizeLocal (utf16 ''TM'') = utf16 ''tm''"
    by (simp add: normalizeLocal_eval)
  have c: "normalize_text rd (Some [0x0A, 0x61]) = [0x20, 0x61]" for rd
    by (cases rd) (simp_all add: normalize_text_eval)
  have d: "normalize_text rd (Some [0x20, 0x61]) = [0x61]" for rd
    by (cases rd) (simp_all add: normalize_text_eval)
  show ?thesis
    by (simp only: a b c d simp_thms)
qed

end
